theory Spec2Isabelle
  imports Main "HOL-Library.AList"
begin

section \<open>Python values used by the two fetchers\<close>

text \<open>
  The repository holds two scripts, \<^verbatim>\<open>conference/bibtex_fetcher.py\<close> and
  \<^verbatim>\<open>journal/bibtex_fetcher.py\<close>. Both read a CSV of papers, fetch the BibTeX
  text of every paper from its page and write the rows, extended by a column
  \<^verbatim>\<open>bibtex_data\<close>, to an output CSV which the next run reads back as a cache.

  A Python \<^verbatim>\<open>str\<close> is a \<^typ>\<open>string\<close>; each character is read as a code point
  below 256. \<^verbatim>\<open>str.strip()\<close> removes the characters for which
  \<^verbatim>\<open>str.isspace\<close> holds, at both ends.
\<close>

definition isspace :: "char \<Rightarrow> bool" where
  "isspace c \<longleftrightarrow>
     c \<in> {CHR 0x09, CHR 0x0A, CHR 0x0B, CHR 0x0C, CHR 0x0D,
          CHR 0x1C, CHR 0x1D, CHR 0x1E, CHR 0x1F, CHR 0x20, CHR 0x85, CHR 0xA0}"

definition strip :: "string \<Rightarrow> string" where
  "strip s = rev (dropWhile isspace (rev (dropWhile isspace s)))"

text \<open>
  The exceptions that can leave the functions below; \<open>CsvError\<close> is \<^verbatim>\<open>_csv.Error\<close>.
\<close>

datatype py_exception = AttributeError | ValueError | FileNotFoundError | CsvError

text \<open>
  The two reserved values of \<^verbatim>\<open>bibtex_data\<close>, and the test
  \<^verbatim>\<open>x and x not in ("Not Available", "No URL")\<close> that both scripts apply to a
  trimmed value.
\<close>

definition not_available :: string where
  "not_available = ''Not Available''"

definition no_url :: string where
  "no_url = ''No URL''"

definition real_bibtex :: "string \<Rightarrow> bool" where
  "real_bibtex x \<longleftrightarrow> x \<noteq> [] \<and> x \<noteq> not_available \<and> x \<noteq> no_url"

section \<open>CSV files, \<^verbatim>\<open>csv.DictReader\<close> and \<^verbatim>\<open>csv.DictWriter\<close>\<close>

text \<open>
  A CSV file is the list of its rows and a row the list of its cells, as
  \<^verbatim>\<open>csv.reader\<close> yields them and \<^verbatim>\<open>csv.writer\<close> takes them; quoting and line
  ends are below this model, so that two files are byte-identical here when they hold
  the same cells. A blank line is the row \<open>[]\<close>.

  \<^verbatim>\<open>csv.DictReader\<close> takes the first row as the field names and turns every later
  non-blank row into a dict: \<^verbatim>\<open>dict(zip(fieldnames, row))\<close>, then, for a row shorter
  than the header, \<^verbatim>\<open>None\<close> under each missing field name, and for a longer row the
  surplus cells as a list under the key \<^verbatim>\<open>None\<close>. A Python dict keeps its keys in
  the order of their first insertion: it is an association list with distinct keys,
  read by \<^const>\<open>map_of\<close> and written by \<^const>\<open>AList.update\<close>. A row dict is
  modelled by its string keys (\<open>cols\<close>) and the surplus cells (\<open>rest\<close>, empty when
  the key \<^verbatim>\<open>None\<close> is absent).
\<close>

type_synonym csv_row = "string list"
type_synonym csv_file = "csv_row list"

datatype pyval = PyStr string | PyNone

type_synonym ('k, 'v) dict = "('k \<times> 'v) list"

record dict_row =
  cols :: "(string, pyval) dict"
  rest :: "string list"

definition make_row :: "string list \<Rightarrow> csv_row \<Rightarrow> dict_row" where
  "make_row fieldnames row =
     \<lparr>cols = foldl (\<lambda>d key. AList.update key PyNone d)
               (foldl (\<lambda>d (key, v). AList.update key (PyStr v) d) [] (zip fieldnames row))
               (drop (length row) fieldnames),
      rest = drop (length fieldnames) row\<rparr>"

definition reader_fieldnames :: "csv_file \<Rightarrow> string list option" where
  "reader_fieldnames f = (case f of [] \<Rightarrow> None | header # _ \<Rightarrow> Some header)"

text \<open>
  The reader refuses a cell of more than \<^verbatim>\<open>csv.field_size_limit()\<close> characters,
  131072 unless it is changed, which the scripts do not do: reading a row with such a
  cell raises \<^verbatim>\<open>_csv.Error\<close>. The writer has no such limit. Iterating over the
  reader therefore yields the dicts of the rows before the first such row
  (\<open>dict_reader\<close>) and then ends either with the file or with the exception
  (\<open>reader_error\<close>); when the header itself has such a cell, the exception comes
  first.
\<close>

definition field_size_limit :: int where
  "field_size_limit = 131072"

definition readable :: "csv_row \<Rightarrow> bool" where
  "readable row \<longleftrightarrow> list_all (\<lambda>c. int (length c) \<le> field_size_limit) row"

definition dict_reader :: "csv_file \<Rightarrow> dict_row list" where
  "dict_reader f =
     (case f of
        [] \<Rightarrow> []
      | header # rows \<Rightarrow>
          if readable header
          then map (make_row header) (filter (\<lambda>row. row \<noteq> []) (takeWhile readable rows))
          else [])"

definition reader_error :: "csv_file \<Rightarrow> py_exception option" where
  "reader_error f = (if list_all readable f then None else Some CsvError)"

text \<open>
  \<^verbatim>\<open>row.get(key, "").strip()\<close>: the default covers a key that the dict does not have;
  a key that is there with the value \<^verbatim>\<open>None\<close> makes \<^verbatim>\<open>.strip()\<close> raise.
\<close>

definition get_strip :: "dict_row \<Rightarrow> string \<Rightarrow> py_exception + string" where
  "get_strip row key =
     (case map_of (cols row) key of
        None \<Rightarrow> Inr (strip [])
      | Some (PyStr s) \<Rightarrow> Inr (strip s)
      | Some PyNone \<Rightarrow> Inl AttributeError)"

text \<open>\<^verbatim>\<open>row[key] = value\<close>.\<close>

definition setitem :: "dict_row \<Rightarrow> string \<Rightarrow> string \<Rightarrow> dict_row" where
  "setitem row key v = row\<lparr>cols := AList.update key (PyStr v) (cols row)\<rparr>"

text \<open>
  \<^verbatim>\<open>csv.DictWriter\<close> (with its default \<^verbatim>\<open>extrasaction="raise"\<close>) refuses a dict
  with a key outside its field names; otherwise it writes, for each field name in
  order, the value under it, \<^verbatim>\<open>""\<close> for a missing key and for \<^verbatim>\<open>None\<close>.
\<close>

definition cell :: "pyval option \<Rightarrow> string" where
  "cell v = (case v of Some (PyStr s) \<Rightarrow> s | Some PyNone \<Rightarrow> [] | None \<Rightarrow> [])"

definition dict_to_list :: "string list \<Rightarrow> dict_row \<Rightarrow> py_exception + csv_row" where
  "dict_to_list fieldnames row =
     (if rest row \<noteq> [] \<or> (\<exists>key \<in> set (map fst (cols row)). key \<notin> set fieldnames)
      then Inl ValueError
      else Inr (map (\<lambda>key. cell (map_of (cols row) key)) fieldnames))"

section \<open>The world outside: files, the web, the logger\<close>

text \<open>
  What \<^verbatim>\<open>requests.get(url, timeout=10)\<close> and the parse of the answer give for a
  URL: the request raises a \<^verbatim>\<open>RequestException\<close> (no connection, timeout, bad
  URL), or there is a response with a status code and a document. Of the document the
  scripts look only at \<^verbatim>\<open>soup.find("div", id="bibtex-section")\<close>, and in that tag at
  \<^verbatim>\<open>find("pre")\<close> and its text; each \<^verbatim>\<open>find\<close> gives \<^verbatim>\<open>None\<close> when there is no
  such tag. A tag of BeautifulSoup is always true in a condition.
\<close>

datatype bibtex_div = Div "string option"

datatype soup = Soup "bibtex_div option"

datatype http_outcome = RequestException | Response nat soup

datatype level = INFO | WARNING | ERROR

datatype message =
    NoSection string
  | FetchFailed string
  | InputMissing string
  | TotalEntries string nat
  | SuccessEntries string nat

text \<open>
  The state the scripts act on: the CSV files by path, the URLs requested so far and
  the calls made to the logger so far, each in order.
\<close>

record world =
  files :: "string \<rightharpoonup> csv_file"
  requested :: "string list"
  logged :: "(level \<times> message) list"

text \<open>The world before anything has happened, with no file in it.\<close>

definition no_files :: world where
  "no_files = \<lparr>files = Map.empty, requested = [], logged = []\<rparr>"

definition logger :: "level \<Rightarrow> message \<Rightarrow> world \<Rightarrow> world" where
  "logger lvl msg w = w\<lparr>logged := logged w @ [(lvl, msg)]\<rparr>"

text \<open>
  \<^verbatim>\<open>logging.basicConfig(level=...)\<close> decides which of the calls are shown: those at
  or above the level. The two scripts differ in that level and in the default file
  names of their command line.
\<close>

definition levelno :: "level \<Rightarrow> nat" where
  "levelno l = (case l of INFO \<Rightarrow> 20 | WARNING \<Rightarrow> 30 | ERROR \<Rightarrow> 40)"

definition shown :: "level \<Rightarrow> world \<Rightarrow> (level \<times> message) list" where
  "shown threshold w = filter (\<lambda>(l, msg). levelno threshold \<le> levelno l) (logged w)"

record config =
  default_inputfile :: string
  default_outputfile :: string
  log_level :: level

definition conference_config :: config where
  "conference_config =
     \<lparr>default_inputfile = ''conference.csv'',
      default_outputfile = ''conference_with_bibtex.csv'',
      log_level = ERROR\<rparr>"

definition journal_config :: config where
  "journal_config =
     \<lparr>default_inputfile = ''journal.csv'',
      default_outputfile = ''journal_with_bibtex.csv'',
      log_level = INFO\<rparr>"

text \<open>
  A file open for writing: what the destination holds, and what has been written but
  not yet flushed. \<^verbatim>\<open>open(path, mode="w")\<close> empties the destination; a write goes to
  the buffer; \<^verbatim>\<open>flush()\<close> and closing the file move the buffer to the destination.
  \<open>pending\<close> is what was written since the last flush; how much of it has already
  reached the destination depends on the size of the buffer and is left open here
  (see \<open>stopped_after\<close>).
\<close>

record out_file =
  disk :: csv_file
  pending :: csv_file

definition open_w :: out_file where
  "open_w = \<lparr>disk = [], pending = []\<rparr>"

definition write_row :: "csv_row \<Rightarrow> out_file \<Rightarrow> out_file" where
  "write_row r f = f\<lparr>pending := pending f @ [r]\<rparr>"

definition flush :: "out_file \<Rightarrow> out_file" where
  "flush f = \<lparr>disk = disk f @ pending f, pending = []\<rparr>"

definition close :: "out_file \<Rightarrow> out_file" where
  "close f = flush f"

text \<open>
  \<^verbatim>\<open>writer.writeheader()\<close> writes the dict \<^verbatim>\<open>dict(zip(fieldnames, fieldnames))\<close>,
  whose keys are the field names themselves: the row of the field names.
\<close>

definition writeheader :: "string list \<Rightarrow> out_file \<Rightarrow> out_file" where
  "writeheader fieldnames f = write_row fieldnames f"

definition writerow :: "string list \<Rightarrow> dict_row \<Rightarrow> out_file \<Rightarrow> py_exception + out_file" where
  "writerow fieldnames row f =
     (case dict_to_list fieldnames row of
        Inl e \<Rightarrow> Inl e
      | Inr r \<Rightarrow> Inr (write_row r f))"

section \<open>\<^verbatim>\<open>conference/bibtex_fetcher.py\<close>\<close>

text \<open>
  \<^verbatim>\<open>fetch_bibtex\<close>, lines 25 to 39. Only \<^verbatim>\<open>RequestException\<close> is caught
  (\<^verbatim>\<open>raise_for_status\<close> raises one for a status from 400 to 599); when the section
  has no \<^verbatim>\<open>pre\<close>, \<^verbatim>\<open>bibtex_section.find("pre").text\<close> is an attribute of
  \<^verbatim>\<open>None\<close>, an \<^verbatim>\<open>AttributeError\<close>.
\<close>

definition fetch_bibtex ::
  "(string \<Rightarrow> http_outcome) \<Rightarrow> string \<Rightarrow> world \<Rightarrow> (py_exception + string option) \<times> world" where
  "fetch_bibtex web bibtex_url w =
     (let w1 = w\<lparr>requested := requested w @ [bibtex_url]\<rparr> in
      case web bibtex_url of
        RequestException \<Rightarrow> (Inr None, logger ERROR (FetchFailed bibtex_url) w1)
      | Response status (Soup bibtex_section) \<Rightarrow>
          if 400 \<le> status \<and> status < 600
          then (Inr None, logger ERROR (FetchFailed bibtex_url) w1)
          else (case bibtex_section of
                  Some (Div pre) \<Rightarrow>
                    (case pre of
                       None \<Rightarrow> (Inl AttributeError, w1)
                     | Some text \<Rightarrow> (Inr (Some (strip text)), w1))
                | None \<Rightarrow> (Inr None, logger WARNING (NoSection bibtex_url) w1)))"

text \<open>\<^verbatim>\<open>load_existing_data\<close>, lines 41 to 54; the loop of lines 50 to 53 first.\<close>

fun load_rows ::
  "string \<Rightarrow> dict_row list \<Rightarrow> (string, dict_row) dict \<Rightarrow> py_exception + (string, dict_row) dict" where
  "load_rows key_field [] existing_data = Inr existing_data"
| "load_rows key_field (row # rows) existing_data =
     (case get_strip row key_field of
        Inl e \<Rightarrow> Inl e
      | Inr key \<Rightarrow>
          load_rows key_field rows
            (if key \<noteq> [] then AList.update key row existing_data else existing_data))"

definition load_existing_data ::
  "world \<Rightarrow> string \<Rightarrow> string \<Rightarrow> py_exception + (string, dict_row) dict" where
  "load_existing_data w outputfile key_field =
     (case files w outputfile of
        Some f \<Rightarrow>
          (case load_rows key_field (dict_reader f) [] of
             Inl e \<Rightarrow> Inl e
           | Inr existing_data \<Rightarrow>
               (case reader_error f of
                  Some e \<Rightarrow> Inl e
                | None \<Rightarrow> Inr existing_data))
      | None \<Rightarrow> Inr [])"

text \<open>\<^verbatim>\<open>print_statistics\<close>, lines 56 to 78; the loop of lines 72 to 75 first.\<close>

fun count_success :: "dict_row list \<Rightarrow> nat \<Rightarrow> py_exception + nat" where
  "count_success [] success_entries = Inr success_entries"
| "count_success (row # rows) success_entries =
     (case get_strip row ''bibtex_data'' of
        Inl e \<Rightarrow> Inl e
      | Inr bibtex \<Rightarrow>
          count_success rows
            (if real_bibtex bibtex then success_entries + 1 else success_entries))"

definition print_statistics ::
  "string \<Rightarrow> string \<Rightarrow> world \<Rightarrow> (py_exception + unit) \<times> world" where
  "print_statistics inputfile outputfile w =
     (case (case files w inputfile of
              Some f \<Rightarrow>
                (case reader_error f of
                   Some e \<Rightarrow> Inl e
                 | None \<Rightarrow> Inr (length (dict_reader f), w))
            | None \<Rightarrow> Inr (0, logger WARNING (InputMissing inputfile) w)) of
        Inl e \<Rightarrow> (Inl e, w)
      | Inr (total_entries, w1) \<Rightarrow>
          (case (case files w1 outputfile of
                   Some f \<Rightarrow>
                     (case count_success (dict_reader f) 0 of
                        Inl e \<Rightarrow> Inl e
                      | Inr success_entries \<Rightarrow>
                          (case reader_error f of
                             Some e \<Rightarrow> Inl e
                           | None \<Rightarrow> Inr success_entries))
                 | None \<Rightarrow> Inr 0) of
             Inl e \<Rightarrow> (Inl e, w1)
           | Inr success_entries \<Rightarrow>
               (Inr (),
                logger ERROR (SuccessEntries outputfile success_entries)
                  (logger ERROR (TotalEntries inputfile total_entries) w1))))"

text \<open>
  \<^verbatim>\<open>process_csv\<close>, lines 80 to 119. The state of its loop is the open output file
  and the world. \<open>cached_bibtex\<close> is lines 103 to 105: the trimmed
  \<^verbatim>\<open>bibtex_data\<close> of the entry of the title when it passes the test, nothing otherwise.
  \<open>write_flush\<close> is the \<^verbatim>\<open>writer.writerow(row)\<close> and \<^verbatim>\<open>outfile.flush()\<close> that end
  both branches.
\<close>

definition cached_bibtex ::
  "(string, dict_row) dict \<Rightarrow> string \<Rightarrow> py_exception + string option" where
  "cached_bibtex processed_data title =
     (case map_of processed_data title of
        None \<Rightarrow> Inr None
      | Some entry \<Rightarrow>
          (case get_strip entry ''bibtex_data'' of
             Inl e \<Rightarrow> Inl e
           | Inr existing_bibtex \<Rightarrow>
               Inr (if real_bibtex existing_bibtex then Some existing_bibtex else None)))"

definition write_flush ::
  "string list \<Rightarrow> dict_row \<Rightarrow> out_file \<times> world \<Rightarrow> (py_exception + unit) \<times> (out_file \<times> world)" where
  "write_flush fieldnames row s =
     (case writerow fieldnames row (fst s) of
        Inl e \<Rightarrow> (Inl e, s)
      | Inr f \<Rightarrow> (Inr (), (flush f, snd s)))"

definition process_row ::
  "(string \<Rightarrow> http_outcome) \<Rightarrow> (string, dict_row) dict \<Rightarrow> string list \<Rightarrow> dict_row \<Rightarrow>
     out_file \<times> world \<Rightarrow> (py_exception + unit) \<times> (out_file \<times> world)" where
  "process_row web processed_data fieldnames row s =
     (case get_strip row ''title'' of
        Inl e \<Rightarrow> (Inl e, s)
      | Inr title \<Rightarrow>
     (case get_strip row ''bibtex_url'' of
        Inl e \<Rightarrow> (Inl e, s)
      | Inr bibtex_url \<Rightarrow>
     (case cached_bibtex processed_data title of
        Inl e \<Rightarrow> (Inl e, s)
      | Inr (Some existing_bibtex) \<Rightarrow>
          write_flush fieldnames (setitem row ''bibtex_data'' existing_bibtex) s
      | Inr None \<Rightarrow>
          if bibtex_url \<noteq> [] then
            (case fetch_bibtex web bibtex_url (snd s) of
               (Inl e, w) \<Rightarrow> (Inl e, (fst s, w))
             | (Inr bibtex_data, w) \<Rightarrow>
                 write_flush fieldnames
                   (setitem row ''bibtex_data''
                      (case bibtex_data of
                         Some t \<Rightarrow> if t \<noteq> [] then t else not_available
                       | None \<Rightarrow> not_available))
                   (fst s, w))
          else write_flush fieldnames (setitem row ''bibtex_data'' no_url) s)))"

fun process_rows ::
  "(string \<Rightarrow> http_outcome) \<Rightarrow> (string, dict_row) dict \<Rightarrow> string list \<Rightarrow> dict_row list \<Rightarrow>
     out_file \<times> world \<Rightarrow> (py_exception + unit) \<times> (out_file \<times> world)" where
  "process_rows web processed_data fieldnames [] s = (Inr (), s)"
| "process_rows web processed_data fieldnames (row # rows) s =
     (case process_row web processed_data fieldnames row s of
        (Inl e, s') \<Rightarrow> (Inl e, s')
      | (Inr u, s') \<Rightarrow> process_rows web processed_data fieldnames rows s')"

text \<open>
  Lines 90 to 92: \<^verbatim>\<open>reader.fieldnames.copy() if reader.fieldnames else []\<close>, then
  \<^verbatim>\<open>bibtex_data\<close> appended when it is not there.
\<close>

definition output_fieldnames :: "csv_file \<Rightarrow> string list" where
  "output_fieldnames f =
     (let fieldnames = (case reader_fieldnames f of Some header \<Rightarrow> header | None \<Rightarrow> [])
      in if ''bibtex_data'' \<in> set fieldnames then fieldnames
         else fieldnames @ [''bibtex_data''])"

text \<open>
  The cache is loaded before the input is opened, and the input is read whole
  (\<^verbatim>\<open>list(reader)\<close>, which raises when the reader does) before the output is opened
  for writing. Leaving the \<^verbatim>\<open>with\<close> block closes the output file, on an exception
  too.
\<close>

definition process_csv ::
  "(string \<Rightarrow> http_outcome) \<Rightarrow> string \<Rightarrow> string \<Rightarrow> world \<Rightarrow> (py_exception + unit) \<times> world" where
  "process_csv web inputfile outputfile w =
     (case load_existing_data w outputfile ''title'' of
        Inl e \<Rightarrow> (Inl e, w)
      | Inr processed_data \<Rightarrow>
          (case files w inputfile of
             None \<Rightarrow> (Inl FileNotFoundError, w)
           | Some f \<Rightarrow>
               (case reader_error f of
                  Some e \<Rightarrow> (Inl e, w)
                | None \<Rightarrow>
                    (case process_rows web processed_data (output_fieldnames f) (dict_reader f)
                            (writeheader (output_fieldnames f) open_w, w) of
                       (r, (outfile, w')) \<Rightarrow>
                         (r, w'\<lparr>files := (files w')(outputfile \<mapsto> disk (close outfile))\<rparr>)))))"

text \<open>
  The destination when the process is killed once \<open>k\<close> records have gone through the
  loop: the same steps on the first \<open>k\<close> records, and then the file is not closed,
  so that the destination holds what was flushed and, of what is pending, the first
  \<open>n\<close> rows: Python writes through what exceeds its buffer (about 8 KiB), so a part
  of what was written since the last flush may have reached the destination. What is
  left of the buffer is lost. (An exception within these records, a
  \<^verbatim>\<open>KeyboardInterrupt\<close> too, leaves the \<^verbatim>\<open>with\<close> block, which closes the file.)
\<close>

definition stopped_after ::
  "nat \<Rightarrow> nat \<Rightarrow> (string \<Rightarrow> http_outcome) \<Rightarrow> string \<Rightarrow> string \<Rightarrow> world \<Rightarrow>
     (py_exception + unit) \<times> world" where
  "stopped_after k n web inputfile outputfile w =
     (case load_existing_data w outputfile ''title'' of
        Inl e \<Rightarrow> (Inl e, w)
      | Inr processed_data \<Rightarrow>
          (case files w inputfile of
             None \<Rightarrow> (Inl FileNotFoundError, w)
           | Some f \<Rightarrow>
               (case reader_error f of
                  Some e \<Rightarrow> (Inl e, w)
                | None \<Rightarrow>
                    (case process_rows web processed_data (output_fieldnames f)
                            (take k (dict_reader f))
                            (writeheader (output_fieldnames f) open_w, w) of
                       (Inl e, (outfile, w')) \<Rightarrow>
                         (Inl e,
                          w'\<lparr>files := (files w')(outputfile \<mapsto> disk (close outfile))\<rparr>)
                     | (Inr u, (outfile, w')) \<Rightarrow>
                         (Inr u,
                          w'\<lparr>files := (files w')
                                 (outputfile \<mapsto> disk outfile @ take n (pending outfile))\<rparr>)))))"

text \<open>The script itself, lines 121 to 123, on the two paths of its command line.\<close>

definition main ::
  "(string \<Rightarrow> http_outcome) \<Rightarrow> string \<Rightarrow> string \<Rightarrow> world \<Rightarrow> (py_exception + unit) \<times> world" where
  "main web inputfile outputfile w =
     (case print_statistics inputfile outputfile w of
        (Inl e, w1) \<Rightarrow> (Inl e, w1)
      | (Inr u, w1) \<Rightarrow> process_csv web inputfile outputfile w1)"

section \<open>\<^verbatim>\<open>journal/bibtex_fetcher.py\<close>\<close>

text \<open>
  The second script, function by function, under the names of its own variables.
  \<^verbatim>\<open>fetch_bibtex\<close>, lines 25 to 38: the warning follows the \<^verbatim>\<open>if\<close> instead of
  standing in an \<^verbatim>\<open>else\<close>.
\<close>

definition journal_fetch_bibtex ::
  "(string \<Rightarrow> http_outcome) \<Rightarrow> string \<Rightarrow> world \<Rightarrow> (py_exception + string option) \<times> world" where
  "journal_fetch_bibtex web bibtex_url w =
     (let w1 = w\<lparr>requested := requested w @ [bibtex_url]\<rparr> in
      case web bibtex_url of
        RequestException \<Rightarrow> (Inr None, logger ERROR (FetchFailed bibtex_url) w1)
      | Response status (Soup bibtex_section) \<Rightarrow>
          if 400 \<le> status \<and> status < 600
          then (Inr None, logger ERROR (FetchFailed bibtex_url) w1)
          else if bibtex_section \<noteq> None
          then (case bibtex_section of
                  Some (Div None) \<Rightarrow> (Inl AttributeError, w1)
                | Some (Div (Some text)) \<Rightarrow> (Inr (Some (strip text)), w1)
                | None \<Rightarrow> (Inr None, logger WARNING (NoSection bibtex_url) w1))
          else (Inr None, logger WARNING (NoSection bibtex_url) w1))"

text \<open>\<^verbatim>\<open>load_existing_data\<close>, lines 40 to 53.\<close>

fun journal_load_rows ::
  "string \<Rightarrow> dict_row list \<Rightarrow> (string, dict_row) dict \<Rightarrow> py_exception + (string, dict_row) dict" where
  "journal_load_rows key_field [] existing = Inr existing"
| "journal_load_rows key_field (row # rows) existing =
     (case get_strip row key_field of
        Inl e \<Rightarrow> Inl e
      | Inr key \<Rightarrow>
          journal_load_rows key_field rows
            (if key \<noteq> [] then AList.update key row existing else existing))"

definition journal_load_existing_data ::
  "world \<Rightarrow> string \<Rightarrow> string \<Rightarrow> py_exception + (string, dict_row) dict" where
  "journal_load_existing_data w outputfile key_field =
     (case files w outputfile of
        Some f \<Rightarrow>
          (case journal_load_rows key_field (dict_reader f) [] of
             Inl e \<Rightarrow> Inl e
           | Inr existing \<Rightarrow>
               (case reader_error f of
                  Some e \<Rightarrow> Inl e
                | None \<Rightarrow> Inr existing))
      | None \<Rightarrow> Inr [])"

text \<open>\<^verbatim>\<open>print_statistics\<close>, lines 55 to 73.\<close>

fun journal_count_success :: "dict_row list \<Rightarrow> nat \<Rightarrow> py_exception + nat" where
  "journal_count_success [] success = Inr success"
| "journal_count_success (row # rows) success =
     (case get_strip row ''bibtex_data'' of
        Inl e \<Rightarrow> Inl e
      | Inr bibtex \<Rightarrow>
          journal_count_success rows (if real_bibtex bibtex then success + 1 else success))"

definition journal_print_statistics ::
  "string \<Rightarrow> string \<Rightarrow> world \<Rightarrow> (py_exception + unit) \<times> world" where
  "journal_print_statistics inputfile outputfile w =
     (case (case files w inputfile of
              Some f \<Rightarrow>
                (case reader_error f of
                   Some e \<Rightarrow> Inl e
                 | None \<Rightarrow> Inr (length (dict_reader f), w))
            | None \<Rightarrow> Inr (0, logger WARNING (InputMissing inputfile) w)) of
        Inl e \<Rightarrow> (Inl e, w)
      | Inr (total', w1) \<Rightarrow>
          (case (case files w1 outputfile of
                   Some f \<Rightarrow>
                     (case journal_count_success (dict_reader f) 0 of
                        Inl e \<Rightarrow> Inl e
                      | Inr success \<Rightarrow>
                          (case reader_error f of
                             Some e \<Rightarrow> Inl e
                           | None \<Rightarrow> Inr success))
                 | None \<Rightarrow> Inr 0) of
             Inl e \<Rightarrow> (Inl e, w1)
           | Inr success \<Rightarrow>
               (Inr (),
                logger ERROR (SuccessEntries outputfile success)
                  (logger ERROR (TotalEntries inputfile total') w1))))"

text \<open>\<^verbatim>\<open>process_csv\<close>, lines 75 to 112; the body of its loop is lines 94 to 112.\<close>

definition journal_process_row ::
  "(string \<Rightarrow> http_outcome) \<Rightarrow> (string, dict_row) dict \<Rightarrow> string list \<Rightarrow> dict_row \<Rightarrow>
     out_file \<times> world \<Rightarrow> (py_exception + unit) \<times> (out_file \<times> world)" where
  "journal_process_row web existing_data fieldnames row s =
     (case get_strip row ''title'' of
        Inl e \<Rightarrow> (Inl e, s)
      | Inr title \<Rightarrow>
     (case get_strip row ''bibtex_url'' of
        Inl e \<Rightarrow> (Inl e, s)
      | Inr url \<Rightarrow>
     (case (case map_of existing_data title of
              None \<Rightarrow> Inr None
            | Some entry \<Rightarrow>
                (case get_strip entry ''bibtex_data'' of
                   Inl e \<Rightarrow> Inl e
                 | Inr cached \<Rightarrow> Inr (if real_bibtex cached then Some cached else None))) of
        Inl e \<Rightarrow> (Inl e, s)
      | Inr (Some cached) \<Rightarrow> write_flush fieldnames (setitem row ''bibtex_data'' cached) s
      | Inr None \<Rightarrow>
          if url \<noteq> [] then
            (case journal_fetch_bibtex web url (snd s) of
               (Inl e, w) \<Rightarrow> (Inl e, (fst s, w))
             | (Inr bibtex, w) \<Rightarrow>
                 write_flush fieldnames
                   (setitem row ''bibtex_data''
                      (case bibtex of
                         Some t \<Rightarrow> if t \<noteq> [] then t else not_available
                       | None \<Rightarrow> not_available))
                   (fst s, w))
          else write_flush fieldnames (setitem row ''bibtex_data'' no_url) s)))"

fun journal_process_rows ::
  "(string \<Rightarrow> http_outcome) \<Rightarrow> (string, dict_row) dict \<Rightarrow> string list \<Rightarrow> dict_row list \<Rightarrow>
     out_file \<times> world \<Rightarrow> (py_exception + unit) \<times> (out_file \<times> world)" where
  "journal_process_rows web existing_data fieldnames [] s = (Inr (), s)"
| "journal_process_rows web existing_data fieldnames (row # rows) s =
     (case journal_process_row web existing_data fieldnames row s of
        (Inl e, s') \<Rightarrow> (Inl e, s')
      | (Inr u, s') \<Rightarrow> journal_process_rows web existing_data fieldnames rows s')"

definition journal_process_csv ::
  "(string \<Rightarrow> http_outcome) \<Rightarrow> string \<Rightarrow> string \<Rightarrow> world \<Rightarrow> (py_exception + unit) \<times> world" where
  "journal_process_csv web inputfile outputfile w =
     (case journal_load_existing_data w outputfile ''title'' of
        Inl e \<Rightarrow> (Inl e, w)
      | Inr existing_data \<Rightarrow>
          (case files w inputfile of
             None \<Rightarrow> (Inl FileNotFoundError, w)
           | Some f \<Rightarrow>
               (case reader_error f of
                  Some e \<Rightarrow> (Inl e, w)
                | None \<Rightarrow>
                    (case journal_process_rows web existing_data (output_fieldnames f)
                            (dict_reader f) (writeheader (output_fieldnames f) open_w, w) of
                       (r, (outfile, w')) \<Rightarrow>
                         (r, w'\<lparr>files := (files w')(outputfile \<mapsto> disk (close outfile))\<rparr>)))))"

definition journal_main ::
  "(string \<Rightarrow> http_outcome) \<Rightarrow> string \<Rightarrow> string \<Rightarrow> world \<Rightarrow> (py_exception + unit) \<times> world" where
  "journal_main web inputfile outputfile w =
     (case journal_print_statistics inputfile outputfile w of
        (Inl e, w1) \<Rightarrow> (Inl e, w1)
      | (Inr u, w1) \<Rightarrow> journal_process_csv web inputfile outputfile w1)"

section \<open>Notions used in the statements\<close>

text \<open>
  The trimmed value of a field of a row dict, \<open>[]\<close> when the dict has no such key;
  whether a row dict holds \<^verbatim>\<open>None\<close> under a key, as \<^verbatim>\<open>csv.DictReader\<close> leaves it
  for a row cut short before that column; and the test of \<^verbatim>\<open>print_statistics\<close> for
  a record that counts as fetched.
\<close>

definition field :: "dict_row \<Rightarrow> string \<Rightarrow> string" where
  "field row key = (case get_strip row key of Inr s \<Rightarrow> s | Inl e \<Rightarrow> [])"

definition has_none :: "dict_row \<Rightarrow> string \<Rightarrow> bool" where
  "has_none row key \<longleftrightarrow> map_of (cols row) key = Some PyNone"

definition is_success :: "dict_row \<Rightarrow> bool" where
  "is_success row \<longleftrightarrow> real_bibtex (field row ''bibtex_data'')"

section \<open>One pass of the loop, taken apart\<close>

text \<open>
  One pass of the loop of \<^verbatim>\<open>process_csv\<close>, taken apart for the proofs: what a request
  returns (it does not depend on the world), the value the pass puts under
  \<^verbatim>\<open>bibtex_data\<close>, whether the pass makes a request, the world after it, and the CSV
  row it writes. Lemma \<open>process_row_eq\<close> proves that \<^const>\<open>process_row\<close> is made of
  these.
\<close>

definition fetch_result :: "(string \<Rightarrow> http_outcome) \<Rightarrow> string \<Rightarrow> py_exception + string option" where
  "fetch_result web url = fst (fetch_bibtex web url no_files)"

definition row_bibtex ::
  "(string \<Rightarrow> http_outcome) \<Rightarrow> (string, dict_row) dict \<Rightarrow> dict_row \<Rightarrow> py_exception + string" where
  "row_bibtex web processed_data row =
     (case get_strip row ''title'' of
        Inl e \<Rightarrow> Inl e
      | Inr title \<Rightarrow>
     (case get_strip row ''bibtex_url'' of
        Inl e \<Rightarrow> Inl e
      | Inr bibtex_url \<Rightarrow>
     (case cached_bibtex processed_data title of
        Inl e \<Rightarrow> Inl e
      | Inr (Some existing_bibtex) \<Rightarrow> Inr existing_bibtex
      | Inr None \<Rightarrow>
          if bibtex_url \<noteq> [] then
            (case fetch_result web bibtex_url of
               Inl e \<Rightarrow> Inl e
             | Inr (Some t) \<Rightarrow> Inr (if t \<noteq> [] then t else not_available)
             | Inr None \<Rightarrow> Inr not_available)
          else Inr no_url)))"

definition fetches :: "(string, dict_row) dict \<Rightarrow> dict_row \<Rightarrow> bool" where
  "fetches processed_data row \<longleftrightarrow>
     \<not> has_none row ''title'' \<and> \<not> has_none row ''bibtex_url'' \<and>
     cached_bibtex processed_data (field row ''title'') = Inr None \<and>
     field row ''bibtex_url'' \<noteq> []"

definition row_effect ::
  "(string \<Rightarrow> http_outcome) \<Rightarrow> (string, dict_row) dict \<Rightarrow> dict_row \<Rightarrow> world \<Rightarrow> world" where
  "row_effect web processed_data row w =
     (if fetches processed_data row then snd (fetch_bibtex web (field row ''bibtex_url'') w)
      else w)"

definition written ::
  "(string \<Rightarrow> http_outcome) \<Rightarrow> (string, dict_row) dict \<Rightarrow> string list \<Rightarrow> dict_row \<Rightarrow>
     py_exception + csv_row" where
  "written web processed_data fieldnames row =
     (case row_bibtex web processed_data row of
        Inl e \<Rightarrow> Inl e
      | Inr b \<Rightarrow> dict_to_list fieldnames (setitem row ''bibtex_data'' b))"

section \<open>Rectangular files and data for the examples\<close>

text \<open>
  A file is rectangular when every row that is not blank has as many cells as the
  header. \<^verbatim>\<open>csv.DictReader\<close> skips blank rows, so that the dicts of a rectangular
  file hold a string, under every field name, and nothing else.
\<close>

definition rectangular :: "csv_file \<Rightarrow> bool" where
  "rectangular f \<longleftrightarrow>
     (case f of
        [] \<Rightarrow> True
      | header # rows \<Rightarrow> list_all (\<lambda>row. row = [] \<or> length row = length header) rows)"

text \<open>Data for the examples: the header of an output file.\<close>

definition out_header :: "string list" where
  "out_header = [''title'', ''bibtex_url'', ''bibtex_data'']"

text \<open>
  A prior output in which two records share the trimmed title \<^verbatim>\<open>A\<close> and one
  record has a blank title.
\<close>

definition prior_dup :: csv_file where
  "prior_dup =
     [out_header, [''A'', ''u1'', ''x''], ['' '', ''u0'', ''z''], [''A '', ''u2'', ''y'']]"

text \<open>
  The scenario of the spec for the statistics: five input records, and an output with
  three fetched records and two marked \<^verbatim>\<open>Not Available\<close>.
\<close>

definition five_papers :: csv_file where
  "five_papers =
     [[''title'', ''bibtex_url''],
      [''P1'', ''u1''], [''P2'', ''u2''], [''P3'', ''u3''], [''P4'', ''u4''], [''P5'', ''u5'']]"

definition five_results :: csv_file where
  "five_results =
     [out_header,
      [''P1'', ''u1'', ''@article{p1}''], [''P2'', ''u2'', ''Not Available''],
      [''P3'', ''u3'', ''@article{p3}''], [''P4'', ''u4'', ''Not Available''],
      [''P5'', ''u5'', ''@article{p5}'']]"

text \<open>
  One paper \<^verbatim>\<open>A\<close> with a given URL; a prior output that holds \<^verbatim>\<open>A\<close> with another
  URL and the citation \<^verbatim>\<open>x\<close>; a web where every request fails; two papers, and a
  web where the page of the first has the section but no \<^verbatim>\<open>pre\<close> in it.
\<close>

definition paper_a :: "string \<Rightarrow> csv_file" where
  "paper_a url = [[''title'', ''bibtex_url''], [''A'', url]]"

definition prior_a :: csv_file where
  "prior_a = [out_header, [''A'', ''u2'', ''x'']]"

definition web_down :: "string \<Rightarrow> http_outcome" where
  "web_down url = RequestException"

definition papers_ab :: csv_file where
  "papers_ab = [[''title'', ''bibtex_url''], [''A'', ''u1''], [''B'', ''u2'']]"

definition web_no_pre :: "string \<Rightarrow> http_outcome" where
  "web_no_pre url =
     (if url = ''u1'' then Response 200 (Soup (Some (Div None)))
      else Response 200 (Soup (Some (Div (Some ''@article{b}'')))))"

text \<open>Two records with the same title and different URLs.\<close>

definition papers_aa :: csv_file where
  "papers_aa = [[''title'', ''bibtex_url''], [''A'', ''u1''], [''A'', ''u2'']]"

text \<open>
  The scenario of the spec for the whole run, with a third paper whose page holds
  blanks only where the citation should be.
\<close>

definition three_papers :: csv_file where
  "three_papers =
     [[''title'', ''bibtex_url''],
      [''Paper A'', ''http://x/a''], [''Paper B'', ''''], [''Paper C'', ''http://x/c'']]"

definition web_example :: "string \<Rightarrow> http_outcome" where
  "web_example url =
     (if url = ''http://x/a'' then Response 200 (Soup (Some (Div (Some ''@inproceedings{a}''))))
      else Response 200 (Soup (Some (Div (Some ''   '')))))"

text \<open>Three records with the same trimmed title.\<close>

definition same_title :: csv_file where
  "same_title =
     [[''title'', ''bibtex_url''], [''A'', ''u1''], [''A '', ''u2''], [''A'', ''u1'']]"

text \<open>A web that answers every URL with a citation made of the URL.\<close>

definition web_echo :: "string \<Rightarrow> http_outcome" where
  "web_echo url = Response 200 (Soup (Some (Div (Some (''@misc{'' @ url @ ''}'')))))"

text \<open>
  A web that answers every URL with a citation made of the first hundred characters of
  the URL.
\<close>

definition web_cite :: "string \<Rightarrow> http_outcome" where
  "web_cite url = Response 200 (Soup (Some (Div (Some (''@misc{'' @ take 100 url @ ''}'')))))"

section \<open>Properties of \<^const>\<open>strip\<close>\<close>

lemma strip_Nil [simp]: "strip [] = []"
  by (simp add: strip_def)

lemma strip_prefix_suffix:
  "dropWhile isspace s = strip s @ rev (takeWhile isspace (rev (dropWhile isspace s)))"
proof -
  let ?t = "dropWhile isspace s"
  have "strip s @ rev (takeWhile isspace (rev ?t)) =
        rev (takeWhile isspace (rev ?t) @ dropWhile isspace (rev ?t))"
    by (simp only: strip_def rev_append)
  also have "\<dots> = ?t"
    by (simp only: takeWhile_dropWhile_id rev_rev_ident)
  finally show ?thesis by simp
qed

lemma strip_hd: "strip s \<noteq> [] \<Longrightarrow> \<not> isspace (hd (strip s))"
proof -
  assume ne: "strip s \<noteq> []"
  let ?t = "dropWhile isspace s"
  have t: "?t = strip s @ rev (takeWhile isspace (rev ?t))"
    by (rule strip_prefix_suffix)
  from ne have "?t \<noteq> []"
    by (subst t) simp
  then have "\<not> isspace (hd ?t)" by (rule hd_dropWhile)
  moreover from ne have "hd ?t = hd (strip s)"
    by (subst t) simp
  ultimately show ?thesis by simp
qed

lemma strip_idem [simp]: "strip (strip s) = strip s"
proof (cases "strip s = []")
  case True
  then show ?thesis by simp
next
  case False
  then have "dropWhile isspace (strip s) = strip s"
    using strip_hd [of s] by (cases "strip s") auto
  moreover have "dropWhile isspace (rev (strip s)) = rev (strip s)"
    by (simp add: strip_def)
  ultimately show ?thesis
    by (simp add: strip_def [of "strip s"])
qed

section \<open>Reading fields\<close>

lemma get_strip_field: "\<not> has_none row key \<Longrightarrow> get_strip row key = Inr (field row key)"
  by (auto simp: has_none_def field_def get_strip_def split: option.splits pyval.splits)

lemma get_strip_none: "has_none row key \<Longrightarrow> get_strip row key = Inl AttributeError"
  by (auto simp: has_none_def get_strip_def)

lemma get_strip_Inr: "get_strip row key = Inr s \<Longrightarrow> \<not> has_none row key \<and> field row key = s"
  by (auto simp: get_strip_def has_none_def field_def split: option.splits pyval.splits)

lemma list_all2_choice:
  "\<forall>x \<in> set xs. \<exists>y. P x y \<Longrightarrow> \<exists>ys. list_all2 P xs ys"
proof (induction xs)
  case Nil
  then show ?case by simp
next
  case (Cons x xs)
  then obtain y ys where "P x y" "list_all2 P xs ys" by auto
  then have "list_all2 P (x # xs) (y # ys)" by simp
  then show ?case by blast
qed

lemma find_append:
  "find P (xs @ ys) = (case find P xs of None \<Rightarrow> find P ys | Some x \<Rightarrow> Some x)"
  by (induction xs) auto

lemma find_distinct:
  "distinct (map g xs) \<Longrightarrow> x \<in> set xs \<Longrightarrow> find (\<lambda>y. g y = g x) (rev xs) = Some x"
proof (induction xs)
  case Nil
  then show ?case by simp
next
  case (Cons a xs)
  show ?case
  proof (cases "x \<in> set xs")
    case True
    with Cons show ?thesis by (simp add: find_append)
  next
    case False
    with Cons.prems have x: "x = a" by simp
    from Cons.prems have "g a \<notin> g ` set xs" by simp
    then have "\<forall>y \<in> set xs. g y \<noteq> g a"
      by (metis imageI)
    then have "find (\<lambda>y. g y = g a) (rev xs) = None"
      by (simp add: find_None_iff)
    with x show ?thesis by (simp add: find_append)
  qed
qed

section \<open>One record\<close>

lemma write_flush_eq:
  "write_flush fieldnames row (f, w) =
     (case dict_to_list fieldnames row of
        Inl e \<Rightarrow> (Inl e, (f, w))
      | Inr r \<Rightarrow> (Inr (), (\<lparr>disk = disk f @ pending f @ [r], pending = []\<rparr>, w)))"
  by (simp add: write_flush_def writerow_def write_row_def flush_def split: sum.splits)

lemma dict_to_list_setitem:
  "dict_to_list fieldnames (setitem row key v) = Inr r \<Longrightarrow>
   r = map (\<lambda>k. if k = key then v else cell (map_of (cols row) k)) fieldnames"
  by (auto simp: dict_to_list_def setitem_def update_conv' cell_def split: if_splits)

lemma web_cases [case_names failed bad_status no_section no_pre pre]:
  obtains "web url = RequestException"
  | status doc where "web url = Response status doc" "400 \<le> status \<and> status < 600"
  | status where "web url = Response status (Soup None)" "\<not> (400 \<le> status \<and> status < 600)"
  | status where "web url = Response status (Soup (Some (Div None)))"
      "\<not> (400 \<le> status \<and> status < 600)"
  | status t where "web url = Response status (Soup (Some (Div (Some t))))"
      "\<not> (400 \<le> status \<and> status < 600)"
proof (cases "web url")
  case RequestException
  then show ?thesis using that(1) by simp
next
  case (Response status doc)
  obtain bibtex_section where doc: "doc = Soup bibtex_section" by (cases doc)
  show ?thesis
  proof (cases "400 \<le> status \<and> status < 600")
    case True
    with Response show ?thesis using that(2) by simp
  next
    case False
    show ?thesis
    proof (cases bibtex_section)
      case None
      with Response doc False show ?thesis using that(3) by simp
    next
      case (Some d)
      obtain p where d: "d = Div p" by (cases d)
      show ?thesis
      proof (cases p)
        case None
        with Some d Response doc False show ?thesis using that(4) by simp
      next
        case (Some t)
        with \<open>bibtex_section = Some d\<close> d Response doc False show ?thesis
          using that(5) by simp
      qed
    qed
  qed
qed

lemma fetch_bibtex_failed:
  "web url = RequestException \<Longrightarrow>
   fetch_bibtex web url w =
     (Inr None, logger ERROR (FetchFailed url) (w\<lparr>requested := requested w @ [url]\<rparr>))"
  by (simp add: fetch_bibtex_def Let_def)

lemma fetch_bibtex_bad_status:
  "web url = Response status doc \<Longrightarrow> 400 \<le> status \<and> status < 600 \<Longrightarrow>
   fetch_bibtex web url w =
     (Inr None, logger ERROR (FetchFailed url) (w\<lparr>requested := requested w @ [url]\<rparr>))"
  by (cases doc) (simp add: fetch_bibtex_def Let_def)

lemma fetch_bibtex_no_section:
  "web url = Response status (Soup None) \<Longrightarrow> \<not> (400 \<le> status \<and> status < 600) \<Longrightarrow>
   fetch_bibtex web url w =
     (Inr None, logger WARNING (NoSection url) (w\<lparr>requested := requested w @ [url]\<rparr>))"
  by (auto simp: fetch_bibtex_def Let_def)

lemma fetch_bibtex_no_pre:
  "web url = Response status (Soup (Some (Div None))) \<Longrightarrow>
   \<not> (400 \<le> status \<and> status < 600) \<Longrightarrow>
   fetch_bibtex web url w = (Inl AttributeError, w\<lparr>requested := requested w @ [url]\<rparr>)"
  by (auto simp: fetch_bibtex_def Let_def)

lemma fetch_bibtex_pre:
  "web url = Response status (Soup (Some (Div (Some t)))) \<Longrightarrow>
   \<not> (400 \<le> status \<and> status < 600) \<Longrightarrow>
   fetch_bibtex web url w = (Inr (Some (strip t)), w\<lparr>requested := requested w @ [url]\<rparr>)"
  by (auto simp: fetch_bibtex_def Let_def)

lemmas fetch_bibtex_simps =
  fetch_bibtex_failed fetch_bibtex_bad_status fetch_bibtex_no_section fetch_bibtex_no_pre
  fetch_bibtex_pre

lemma fetch_bibtex_fst: "fst (fetch_bibtex web url w) = fetch_result web url"
  by (cases web url rule: web_cases) (simp_all add: fetch_result_def fetch_bibtex_simps)

lemma fetch_bibtex_requested:
  "requested (snd (fetch_bibtex web url w)) = requested w @ [url]"
  by (cases web url rule: web_cases) (simp_all add: fetch_bibtex_simps logger_def)

lemma fetch_bibtex_files: "files (snd (fetch_bibtex web url w)) = files w"
  by (cases web url rule: web_cases) (simp_all add: fetch_bibtex_simps logger_def)

lemma process_row_eq:
  "process_row web processed_data fieldnames row (f, w) =
     (case written web processed_data fieldnames row of
        Inl e \<Rightarrow> (Inl e, (f, row_effect web processed_data row w))
      | Inr r \<Rightarrow>
          (Inr (), (\<lparr>disk = disk f @ pending f @ [r], pending = []\<rparr>,
                    row_effect web processed_data row w)))"
proof (cases "has_none row ''title''")
  case True
  then show ?thesis
    by (simp add: process_row_def written_def row_bibtex_def row_effect_def fetches_def
        get_strip_none)
next
  case t: False
  show ?thesis
  proof (cases "has_none row ''bibtex_url''")
    case True
    with t show ?thesis
      by (simp add: process_row_def written_def row_bibtex_def row_effect_def fetches_def
          get_strip_none get_strip_field)
  next
    case u: False
    show ?thesis
    proof (cases "cached_bibtex processed_data (field row ''title'')")
      case (Inl e)
      with t u show ?thesis
        by (simp add: process_row_def written_def row_bibtex_def row_effect_def fetches_def
            get_strip_field)
    next
      case (Inr c)
      show ?thesis
      proof (cases c)
        case (Some b)
        with Inr t u show ?thesis
          by (simp add: process_row_def written_def row_bibtex_def row_effect_def fetches_def
              get_strip_field write_flush_eq split: sum.splits)
      next
        case None
        show ?thesis
        proof (cases "field row ''bibtex_url'' = []")
          case True
          with None Inr t u show ?thesis
            by (simp add: process_row_def written_def row_bibtex_def row_effect_def
                fetches_def get_strip_field write_flush_eq split: sum.splits)
        next
          case False
          obtain res w' where fb: "fetch_bibtex web (field row ''bibtex_url'') w = (res, w')"
            by (cases "fetch_bibtex web (field row ''bibtex_url'') w")
          then have res: "fetch_result web (field row ''bibtex_url'') = res"
            using fetch_bibtex_fst [of web "field row ''bibtex_url''" w] by simp
          from False None Inr t u fb res show ?thesis
            by (cases res)
              (simp_all add: process_row_def written_def row_bibtex_def row_effect_def
                fetches_def get_strip_field write_flush_eq split: option.splits sum.splits)
        qed
      qed
    qed
  qed
qed


section \<open>The loop over the records\<close>

lemma process_rows_written:
  "list_all2 (\<lambda>row r. written web processed_data fieldnames row = Inr r) rows outs \<Longrightarrow>
   process_rows web processed_data fieldnames rows (f, w) =
     (Inr (),
      (if rows = [] then f else \<lparr>disk = disk f @ pending f @ outs, pending = []\<rparr>),
      foldl (\<lambda>w row. row_effect web processed_data row w) w rows)"
proof (induction rows outs arbitrary: f w rule: list_all2_induct)
  case Nil
  then show ?case by simp
next
  case (Cons row rows r outs)
  from Cons.hyps(2) have "rows = [] \<Longrightarrow> outs = []" by simp
  then show ?case
    using Cons.hyps(1)
    by (auto simp: process_row_eq Cons.IH)
qed

lemma process_rows_returns:
  "process_rows web processed_data fieldnames rows (f, w) = (Inr u, s) \<Longrightarrow>
   \<exists>outs. list_all2 (\<lambda>row r. written web processed_data fieldnames row = Inr r) rows outs"
proof (induction rows arbitrary: f w)
  case Nil
  then show ?case by simp
next
  case (Cons row rows)
  from Cons.prems obtain r where r: "written web processed_data fieldnames row = Inr r"
    by (cases "written web processed_data fieldnames row") (simp_all add: process_row_eq)
  with Cons.prems Cons.IH obtain outs where
    "list_all2 (\<lambda>row r. written web processed_data fieldnames row = Inr r) rows outs"
    by (auto simp: process_row_eq)
  with r have
    "list_all2 (\<lambda>row r. written web processed_data fieldnames row = Inr r) (row # rows) (r # outs)"
    by simp
  then show ?case by blast
qed

lemma process_rows_kept:
  "process_rows web processed_data fieldnames rows (f, w) = (res, (f', w')) \<Longrightarrow>
   \<exists>outs. disk f' @ pending f' = disk f @ pending f @ outs \<and>
     (\<forall>r \<in> set outs. \<exists>row \<in> set rows. written web processed_data fieldnames row = Inr r)"
proof (induction rows arbitrary: f w)
  case Nil
  then show ?case by simp
next
  case (Cons row rows)
  show ?case
  proof (cases "written web processed_data fieldnames row")
    case (Inl e)
    with Cons.prems have "f' = f" by (simp add: process_row_eq)
    then show ?thesis by simp
  next
    case (Inr r)
    let ?f = "\<lparr>disk = disk f @ pending f @ [r], pending = []\<rparr>"
    from Inr Cons.prems have
      "process_rows web processed_data fieldnames rows
         (?f, row_effect web processed_data row w) = (res, (f', w'))"
      by (simp add: process_row_eq)
    from Cons.IH [OF this] obtain outs where
      outs: "disk f' @ pending f' = disk ?f @ pending ?f @ outs"
      "\<forall>r \<in> set outs. \<exists>row \<in> set rows. written web processed_data fieldnames row = Inr r"
      by blast
    from outs(1) have "disk f' @ pending f' = disk f @ pending f @ (r # outs)" by simp
    moreover from outs(2) Inr have
      "\<forall>r \<in> set (r # outs). \<exists>row \<in> set (row # rows).
          written web processed_data fieldnames row = Inr r"
      by auto
    ultimately show ?thesis by blast
  qed
qed

lemma requested_effects:
  "requested (foldl (\<lambda>w row. row_effect web processed_data row w) w rows) =
     requested w @ map (\<lambda>row. field row ''bibtex_url'') (filter (fetches processed_data) rows)"
  by (induction rows arbitrary: w) (simp_all add: row_effect_def fetch_bibtex_requested)

lemma files_effects:
  "files (foldl (\<lambda>w row. row_effect web processed_data row w) w rows) = files w"
  by (induction rows arbitrary: w) (simp_all add: row_effect_def fetch_bibtex_files)

text \<open>
  What \<^verbatim>\<open>process_csv\<close> does when every record is written, and that a run which
  returns normally has written every record.
\<close>

lemma process_csv_written:
  assumes "load_existing_data w outputfile ''title'' = Inr processed_data"
    and "files w inputfile = Some f"
    and "reader_error f = None"
    and "list_all2 (\<lambda>row r. written web processed_data (output_fieldnames f) row = Inr r)
           (dict_reader f) outs"
  shows "process_csv web inputfile outputfile w =
           (Inr (),
            (foldl (\<lambda>w row. row_effect web processed_data row w) w (dict_reader f))
              \<lparr>files := (files w)(outputfile \<mapsto> output_fieldnames f # outs)\<rparr>)"
proof -
  from assms(4) have "dict_reader f = [] \<Longrightarrow> outs = []" by simp
  with assms(1-3) process_rows_written [OF assms(4), of "writeheader (output_fieldnames f) open_w" w]
  show ?thesis
    by (auto simp: process_csv_def files_effects close_def flush_def writeheader_def open_w_def
        write_row_def)
qed

lemma process_csv_returns:
  assumes "process_csv web inputfile outputfile w = (Inr (), w1)"
    and "files w inputfile = Some f"
  shows "\<exists>processed_data outs.
           load_existing_data w outputfile ''title'' = Inr processed_data \<and>
           reader_error f = None \<and>
           list_all2 (\<lambda>row r. written web processed_data (output_fieldnames f) row = Inr r)
             (dict_reader f) outs \<and>
           w1 = (foldl (\<lambda>w row. row_effect web processed_data row w) w (dict_reader f))
                  \<lparr>files := (files w)(outputfile \<mapsto> output_fieldnames f # outs)\<rparr>"
proof -
  from assms obtain processed_data where
    c: "load_existing_data w outputfile ''title'' = Inr processed_data"
    by (cases "load_existing_data w outputfile ''title''") (simp_all add: process_csv_def)
  from assms c have ok: "reader_error f = None"
    by (cases "reader_error f") (simp_all add: process_csv_def)
  obtain res outfile w' where
    run: "process_rows web processed_data (output_fieldnames f) (dict_reader f)
            (writeheader (output_fieldnames f) open_w, w) = (res, (outfile, w'))"
    by (metis prod.exhaust)
  with assms c ok have "res = Inr ()"
    by (simp add: process_csv_def)
  with run process_rows_returns obtain outs where
    outs: "list_all2 (\<lambda>row r. written web processed_data (output_fieldnames f) row = Inr r)
             (dict_reader f) outs"
    by blast
  from process_csv_written [OF c assms(2) ok outs] assms(1) c ok outs show ?thesis
    by auto
qed

section \<open>A record with a cached citation\<close>

text \<open>
  Claim C1. As the claim states it, that the cached entry is reused verbatim as the
  output record, it fails: the prior output holds the paper \<^verbatim>\<open>A\<close> with the URL
  \<^verbatim>\<open>u2\<close>, the input holds it with the URL \<^verbatim>\<open>u1\<close>, and the record written is the
  input record with the cached citation, not the cached entry.
\<close>

theorem cached_entry_not_verbatim:
  "load_existing_data (no_files\<lparr>files := [''in.csv'' \<mapsto> paper_a ''u1'', ''out.csv'' \<mapsto> prior_a]\<rparr>)
      ''out.csv'' ''title'' = Inr [(''A'', make_row out_header [''A'', ''u2'', ''x''])] \<and>
   real_bibtex (field (make_row out_header [''A'', ''u2'', ''x'']) ''bibtex_data'') \<and>
   fst (process_csv web_down ''in.csv'' ''out.csv''
          (no_files\<lparr>files := [''in.csv'' \<mapsto> paper_a ''u1'', ''out.csv'' \<mapsto> prior_a]\<rparr>)) = Inr () \<and>
   files (snd (process_csv web_down ''in.csv'' ''out.csv''
          (no_files\<lparr>files := [''in.csv'' \<mapsto> paper_a ''u1'', ''out.csv'' \<mapsto> prior_a]\<rparr>))) ''out.csv'' =
     Some [out_header, [''A'', ''u1'', ''x'']] \<and>
   [''A'', ''u1'', ''x''] \<noteq> [''A'', ''u2'', ''x'']"
  by code_simp

text \<open>
  Claim C1 as amended. For an input record whose title and URL are strings, when the
  trimmed title has an entry in the Existing-Results Map whose trimmed
  \<^verbatim>\<open>bibtex_data\<close> is neither blank nor one of the two reserved values, and the
  record fits the header, the pass writes and flushes the input record with its
  \<^verbatim>\<open>bibtex_data\<close> set to that trimmed value, every other cell being the input
  record's own, and leaves the world as it was: no request is made.
\<close>

theorem cached_bibtex_reused:
  assumes "get_strip row ''title'' = Inr title"
    and "get_strip row ''bibtex_url'' = Inr url"
    and "map_of processed_data title = Some entry"
    and "get_strip entry ''bibtex_data'' = Inr existing_bibtex"
    and "real_bibtex existing_bibtex"
    and "dict_to_list fieldnames (setitem row ''bibtex_data'' existing_bibtex) = Inr r"
  shows "process_row web processed_data fieldnames row (f, w) =
           (Inr (), (\<lparr>disk = disk f @ pending f @ [r], pending = []\<rparr>, w)) \<and>
         r = map (\<lambda>key. if key = ''bibtex_data'' then existing_bibtex
                         else cell (map_of (cols row) key)) fieldnames"
proof -
  from assms(3-5) have "cached_bibtex processed_data title = Inr (Some existing_bibtex)"
    by (simp add: cached_bibtex_def)
  with assms(1,2,6) have
    "process_row web processed_data fieldnames row (f, w) =
       (Inr (), (\<lparr>disk = disk f @ pending f @ [r], pending = []\<rparr>, w))"
    by (simp add: process_row_def write_flush_eq)
  with dict_to_list_setitem [OF assms(6)] show ?thesis by simp
qed

text \<open>
  The cached entry has the URL \<^verbatim>\<open>u2\<close> and the citation \<^verbatim>\<open>x\<close> between blanks; the
  record written has the URL \<^verbatim>\<open>u1\<close> of the input and the citation trimmed.
\<close>

theorem cached_bibtex_reused_witness:
  "process_row web_down [(''A'', make_row out_header [''A'', ''u2'', '' x ''])] out_header
     (make_row [''title'', ''bibtex_url''] [''A'', ''u1''])
     (writeheader out_header open_w, no_files) =
     (Inr (), (\<lparr>disk = [out_header, [''A'', ''u1'', ''x'']], pending = []\<rparr>, no_files))"
proof -
  let ?row = "make_row [''title'', ''bibtex_url''] [''A'', ''u1'']"
  let ?entry = "make_row out_header [''A'', ''u2'', '' x '']"
  have h: "get_strip ?row ''title'' = Inr ''A''"
    "get_strip ?row ''bibtex_url'' = Inr ''u1''"
    "map_of [(''A'', ?entry)] ''A'' = Some ?entry"
    "get_strip ?entry ''bibtex_data'' = Inr ''x''"
    "real_bibtex ''x''"
    "dict_to_list out_header (setitem ?row ''bibtex_data'' ''x'') = Inr [''A'', ''u1'', ''x'']"
    by code_simp+
  show ?thesis
    using cached_bibtex_reused [OF h, of web_down "writeheader out_header open_w" no_files]
    by (simp add: writeheader_def open_w_def write_row_def)
qed

section \<open>A record without a URL\<close>

text \<open>
  Claim C5. As the claim states it, for every record with a blank URL, it fails: the
  cache is looked up first, so that a record with a blank URL whose title has a cached
  citation gets that citation, not \<^verbatim>\<open>No URL\<close>.
\<close>

theorem blank_url_cached:
  "get_strip (make_row [''title'', ''bibtex_url''] [''A'', '''']) ''bibtex_url'' = Inr [] \<and>
   fst (process_csv web_down ''in.csv'' ''out.csv''
          (no_files\<lparr>files := [''in.csv'' \<mapsto> paper_a '''', ''out.csv'' \<mapsto> prior_a]\<rparr>)) = Inr () \<and>
   files (snd (process_csv web_down ''in.csv'' ''out.csv''
          (no_files\<lparr>files := [''in.csv'' \<mapsto> paper_a '''', ''out.csv'' \<mapsto> prior_a]\<rparr>))) ''out.csv'' =
     Some [out_header, [''A'', '''', ''x'']] \<and>
   ''x'' \<noteq> no_url"
  by code_simp

text \<open>
  Claim C5 as amended. For an input record whose \<^verbatim>\<open>bibtex_url\<close> is blank after
  trimming, whatever the web does, the pass leaves the world as it was, so that no
  request is made; and when the trimmed title has no cached citation that can be
  reused (no entry, or one whose trimmed \<^verbatim>\<open>bibtex_data\<close> is blank or reserved) and
  the record fits the header, the pass writes the record with \<^verbatim>\<open>bibtex_data\<close> set to
  \<^verbatim>\<open>No URL\<close>.
\<close>

theorem blank_url_no_url:
  assumes "get_strip row ''bibtex_url'' = Inr []"
  shows "snd (snd (process_row web processed_data fieldnames row (f, w))) = w \<and>
         (\<forall>title r.
            get_strip row ''title'' = Inr title \<and>
            cached_bibtex processed_data title = Inr None \<and>
            dict_to_list fieldnames (setitem row ''bibtex_data'' no_url) = Inr r \<longrightarrow>
            process_row web processed_data fieldnames row (f, w) =
              (Inr (), (\<lparr>disk = disk f @ pending f @ [r], pending = []\<rparr>, w)))"
proof (intro conjI allI impI)
  from assms have "\<not> fetches processed_data row"
    using get_strip_Inr [of row "''bibtex_url''" "[]"] by (simp add: fetches_def)
  then show "snd (snd (process_row web processed_data fieldnames row (f, w))) = w"
    by (simp add: process_row_eq row_effect_def split: sum.splits)
next
  fix title r
  assume "get_strip row ''title'' = Inr title \<and>
          cached_bibtex processed_data title = Inr None \<and>
          dict_to_list fieldnames (setitem row ''bibtex_data'' no_url) = Inr r"
  with assms show "process_row web processed_data fieldnames row (f, w) =
              (Inr (), (\<lparr>disk = disk f @ pending f @ [r], pending = []\<rparr>, w))"
    by (simp add: process_row_def write_flush_eq)
qed

text \<open>
  A record whose URL is two blanks, on a web where a request for it would succeed.
\<close>

theorem blank_url_no_url_witness:
  "snd (snd (process_row web_no_pre [] out_header
               (make_row [''title'', ''bibtex_url''] [''A'', ''  ''])
               (writeheader out_header open_w, no_files))) = no_files \<and>
   process_row web_no_pre [] out_header
     (make_row [''title'', ''bibtex_url''] [''A'', ''  ''])
     (writeheader out_header open_w, no_files) =
     (Inr (), (\<lparr>disk = [out_header, [''A'', ''  '', ''No URL'']], pending = []\<rparr>, no_files))"
proof -
  let ?row = "make_row [''title'', ''bibtex_url''] [''A'', ''  '']"
  have h: "get_strip ?row ''bibtex_url'' = Inr []"
    by code_simp
  have h2: "get_strip ?row ''title'' = Inr ''A'' \<and>
            cached_bibtex [] ''A'' = Inr None \<and>
            dict_to_list out_header (setitem ?row ''bibtex_data'' no_url) =
              Inr [''A'', ''  '', ''No URL'']"
    by code_simp
  from blank_url_no_url [OF h, of web_no_pre "[]" out_header "writeheader out_header open_w" no_files]
    h2 show ?thesis
    by (simp add: writeheader_def open_w_def write_row_def)
qed

section \<open>A request that fails\<close>

text \<open>
  A request that raises, a status from 400 to 599 and a page without the section all
  make \<^verbatim>\<open>fetch_bibtex\<close> return \<^verbatim>\<open>None\<close>: the pass returns and has written the
  record with \<^verbatim>\<open>Not Available\<close>.
\<close>

lemma fetch_failure_not_available:
  assumes "web url = RequestException \<or>
           (\<exists>status doc. web url = Response status doc \<and> 400 \<le> status \<and> status < 600) \<or>
           (\<exists>status. web url = Response status (Soup None))"
    and "get_strip row ''title'' = Inr title"
    and "get_strip row ''bibtex_url'' = Inr url"
    and "url \<noteq> []"
    and "cached_bibtex processed_data title = Inr None"
    and "dict_to_list fieldnames (setitem row ''bibtex_data'' not_available) = Inr r"
  shows "fst (process_row web processed_data fieldnames row (f, w)) = Inr () \<and>
         disk (fst (snd (process_row web processed_data fieldnames row (f, w)))) =
           disk f @ pending f @ [r]"
proof -
  from assms(1) have "fetch_result web url = Inr None"
    by (cases web url rule: web_cases) (auto simp: fetch_result_def fetch_bibtex_simps)
  with assms(2-5) have "row_bibtex web processed_data row = Inr not_available"
    by (simp add: row_bibtex_def)
  with assms(6) show ?thesis
    by (simp add: process_row_eq written_def)
qed

text \<open>
  A page with the section and no \<^verbatim>\<open>pre\<close> in it: the pass ends with the exception,
  after the request and before anything is written.
\<close>

lemma missing_pre_raises:
  assumes "web url = Response status (Soup (Some (Div None)))"
    and "\<not> (400 \<le> status \<and> status < 600)"
    and "get_strip row ''title'' = Inr title"
    and "get_strip row ''bibtex_url'' = Inr url"
    and "url \<noteq> []"
    and "cached_bibtex processed_data title = Inr None"
  shows "process_row web processed_data fieldnames row (f, w) =
           (Inl AttributeError, (f, w\<lparr>requested := requested w @ [url]\<rparr>))"
  using assms by (simp add: process_row_def fetch_bibtex_no_pre)

text \<open>
  Claim C3. The claim holds for the failures above but not for a page that has the
  section and no \<^verbatim>\<open>pre\<close> in it: \<^verbatim>\<open>find("pre")\<close> is \<^verbatim>\<open>None\<close>, its \<^verbatim>\<open>.text\<close>
  raises an \<^verbatim>\<open>AttributeError\<close>, which \<^verbatim>\<open>except RequestException\<close> does not catch
  and nothing in \<^verbatim>\<open>process_csv\<close> catches either. On two papers of which the first
  has such a page, the run ends with the exception after one request: the output holds
  the header only, the first record is not marked \<^verbatim>\<open>Not Available\<close> and the second
  is never processed.
\<close>

theorem missing_pre_aborts:
  "fst (process_csv web_no_pre ''in.csv'' ''out.csv''
          (no_files\<lparr>files := [''in.csv'' \<mapsto> papers_ab]\<rparr>)) = Inl AttributeError \<and>
   files (snd (process_csv web_no_pre ''in.csv'' ''out.csv''
          (no_files\<lparr>files := [''in.csv'' \<mapsto> papers_ab]\<rparr>))) ''out.csv'' = Some [out_header] \<and>
   requested (snd (process_csv web_no_pre ''in.csv'' ''out.csv''
          (no_files\<lparr>files := [''in.csv'' \<mapsto> papers_ab]\<rparr>))) = [''u1'']"
  by code_simp

section \<open>The value under \<^verbatim>\<open>bibtex_data\<close>\<close>

text \<open>
  Whatever the pass puts under \<^verbatim>\<open>bibtex_data\<close> is trimmed and not empty: a cached
  value passed the test after trimming, a fetched text is trimmed by
  \<^verbatim>\<open>fetch_bibtex\<close> and replaced by \<^verbatim>\<open>Not Available\<close> when it is empty, and the two
  reserved values are neither blank nor padded.
\<close>

lemma get_strip_stripped: "get_strip row key = Inr s \<Longrightarrow> strip s = s"
  by (auto simp: get_strip_def split: option.splits pyval.splits)

lemma fetch_result_stripped: "fetch_result web url = Inr (Some t) \<Longrightarrow> strip t = t"
  by (cases web url rule: web_cases) (auto simp: fetch_result_def fetch_bibtex_simps)

lemma strip_reserved [simp]: "strip not_available = not_available" "strip no_url = no_url"
  by (simp_all add: strip_def isspace_def not_available_def no_url_def)

lemma reserved_not_blank [simp]: "not_available \<noteq> []" "no_url \<noteq> []"
  by (simp_all add: not_available_def no_url_def)

lemma cached_bibtex_Some:
  "cached_bibtex processed_data title = Inr (Some b) \<Longrightarrow> strip b = b \<and> real_bibtex b"
  by (auto simp: cached_bibtex_def get_strip_stripped
      split: option.splits sum.splits if_splits)

lemma row_bibtex_stripped:
  assumes "row_bibtex web processed_data row = Inr b"
  shows "strip b = b \<and> b \<noteq> []"
proof -
  from assms obtain title url where
    t: "get_strip row ''title'' = Inr title" and u: "get_strip row ''bibtex_url'' = Inr url"
    by (auto simp: row_bibtex_def split: sum.splits)
  show ?thesis
  proof (cases "cached_bibtex processed_data title")
    case (Inl e)
    with assms t u show ?thesis by (simp add: row_bibtex_def)
  next
    case (Inr c)
    show ?thesis
    proof (cases c)
      case (Some existing)
      with Inr assms t u have "b = existing" by (simp add: row_bibtex_def)
      with Some Inr cached_bibtex_Some [of processed_data title b] show ?thesis
        by (simp add: real_bibtex_def)
    next
      case None
      show ?thesis
      proof (cases "url = []")
        case True
        with None Inr assms t u show ?thesis by (auto simp: row_bibtex_def)
      next
        case False
        with None Inr assms t u show ?thesis
          by (auto simp: row_bibtex_def fetch_result_stripped
              split: sum.splits option.splits if_splits)
      qed
    qed
  qed
qed

lemma written_Inr:
  "written web processed_data fieldnames row = Inr r \<Longrightarrow>
   \<exists>b. row_bibtex web processed_data row = Inr b \<and>
       dict_to_list fieldnames (setitem row ''bibtex_data'' b) = Inr r"
  by (auto simp: written_def split: sum.splits)

lemma bibtex_data_in_output_fieldnames: "''bibtex_data'' \<in> set (output_fieldnames f)"
  by (simp add: output_fieldnames_def Let_def)

lemma process_csv_output:
  assumes "load_existing_data w outputfile ''title'' = Inr processed_data"
    and "files w inputfile = Some f"
    and "reader_error f = None"
  shows "\<exists>outs. files (snd (process_csv web inputfile outputfile w)) outputfile =
                   Some (output_fieldnames f # outs) \<and>
          (\<forall>r \<in> set outs. \<exists>row \<in> set (dict_reader f).
              written web processed_data (output_fieldnames f) row = Inr r)"
proof -
  let ?fs = "output_fieldnames f"
  obtain res f' w' where
    run: "process_rows web processed_data ?fs (dict_reader f) (writeheader ?fs open_w, w) =
            (res, (f', w'))"
    by (metis prod.exhaust)
  from process_rows_kept [OF run] obtain outs where
    outs: "disk f' @ pending f' = disk (writeheader ?fs open_w) @ pending (writeheader ?fs open_w) @ outs"
      "\<forall>r \<in> set outs. \<exists>row \<in> set (dict_reader f). written web processed_data ?fs row = Inr r"
    by blast
  from outs(1) have "disk (close f') = ?fs # outs"
    by (simp add: close_def flush_def writeheader_def open_w_def write_row_def)
  with assms run have
    "files (snd (process_csv web inputfile outputfile w)) outputfile = Some (?fs # outs)"
    by (simp add: process_csv_def)
  with outs(2) show ?thesis by blast
qed

text \<open>
  Claim C4. When the prior output loads and the input file exists and can be read, so
  that \<^verbatim>\<open>process_csv\<close> opens the output, the output file holds afterwards, whether the
  run ended normally or with an exception, the header and below it only records that
  are as long as the header and whose cell in every column named \<^verbatim>\<open>bibtex_data\<close>
  is not blank: it is \<^verbatim>\<open>Not Available\<close>, \<^verbatim>\<open>No URL\<close> or a text that is neither blank
  nor one of the two.
\<close>

theorem bibtex_data_never_blank:
  assumes "load_existing_data w outputfile ''title'' = Inr processed_data"
    and "files w inputfile = Some f"
    and "reader_error f = None"
  shows "\<exists>outs. files (snd (process_csv web inputfile outputfile w)) outputfile =
                   Some (output_fieldnames f # outs) \<and>
          (\<forall>r \<in> set outs. length r = length (output_fieldnames f) \<and>
             (\<forall>i < length r. output_fieldnames f ! i = ''bibtex_data'' \<longrightarrow>
                strip (r ! i) \<noteq> [] \<and>
                (r ! i = not_available \<or> r ! i = no_url \<or> real_bibtex (r ! i))))"
proof -
  let ?fs = "output_fieldnames f"
  from process_csv_output [OF assms, of web] obtain outs where
    outfile: "files (snd (process_csv web inputfile outputfile w)) outputfile = Some (?fs # outs)"
    and rows: "\<forall>r \<in> set outs. \<exists>row \<in> set (dict_reader f).
                 written web processed_data ?fs row = Inr r"
    by blast
  have "length r = length ?fs \<and>
        (\<forall>i < length r. ?fs ! i = ''bibtex_data'' \<longrightarrow>
           strip (r ! i) \<noteq> [] \<and>
           (r ! i = not_available \<or> r ! i = no_url \<or> real_bibtex (r ! i)))"
    if "r \<in> set outs" for r
  proof -
    from that rows obtain row where "written web processed_data ?fs row = Inr r" by blast
    from written_Inr [OF this] obtain b where
      b: "row_bibtex web processed_data row = Inr b"
      and r: "dict_to_list ?fs (setitem row ''bibtex_data'' b) = Inr r"
      by blast
    from dict_to_list_setitem [OF r] have
      r_eq: "r = map (\<lambda>k. if k = ''bibtex_data'' then b else cell (map_of (cols row) k)) ?fs" .
    from row_bibtex_stripped [OF b] have good: "strip b = b" "b \<noteq> []" by simp_all
    from r_eq have len: "length r = length ?fs" by simp
    have "r ! i = b" if "i < length r" "?fs ! i = ''bibtex_data''" for i
      using that len by (subst r_eq) simp
    with good len show ?thesis
      by (auto simp: real_bibtex_def)
  qed
  with outfile show ?thesis by blast
qed

text \<open>
  Three papers: one with a citation on its page, one without a URL, and one whose
  page has a \<^verbatim>\<open>pre\<close> of blanks only, which becomes \<^verbatim>\<open>Not Available\<close>.
\<close>

theorem bibtex_data_never_blank_witness:
  "files (snd (process_csv web_example ''in.csv'' ''out.csv''
                 (no_files\<lparr>files := [''in.csv'' \<mapsto> three_papers]\<rparr>))) ''out.csv'' =
     Some [out_header,
           [''Paper A'', ''http://x/a'', ''@inproceedings{a}''],
           [''Paper B'', '''', ''No URL''],
           [''Paper C'', ''http://x/c'', ''Not Available'']] \<and>
   (\<exists>outs. files (snd (process_csv web_example ''in.csv'' ''out.csv''
                 (no_files\<lparr>files := [''in.csv'' \<mapsto> three_papers]\<rparr>))) ''out.csv'' =
             Some (output_fieldnames three_papers # outs) \<and>
          (\<forall>r \<in> set outs. length r = length (output_fieldnames three_papers) \<and>
             (\<forall>i < length r. output_fieldnames three_papers ! i = ''bibtex_data'' \<longrightarrow>
                strip (r ! i) \<noteq> [] \<and>
                (r ! i = not_available \<or> r ! i = no_url \<or> real_bibtex (r ! i)))))"
proof -
  let ?w = "no_files\<lparr>files := [''in.csv'' \<mapsto> three_papers]\<rparr>"
  have h: "load_existing_data ?w ''out.csv'' ''title'' = Inr []"
    "files ?w ''in.csv'' = Some three_papers"
    by (simp_all add: load_existing_data_def no_files_def)
  have ok: "reader_error three_papers = None"
    by code_simp
  have "files (snd (process_csv web_example ''in.csv'' ''out.csv'' ?w)) ''out.csv'' =
     Some [out_header,
           [''Paper A'', ''http://x/a'', ''@inproceedings{a}''],
           [''Paper B'', '''', ''No URL''],
           [''Paper C'', ''http://x/c'', ''Not Available'']]"
    by code_simp
  with bibtex_data_never_blank [OF h ok, of web_example] show ?thesis
    by blast
qed

section \<open>The records of a rectangular file\<close>

lemma keys_foldl_str:
  "fst ` set (foldl (\<lambda>d (key, v). AList.update key (PyStr v) d) d0 kvs) =
     fst ` set d0 \<union> fst ` set kvs"
proof (induction kvs arbitrary: d0)
  case Nil
  then show ?case by simp
next
  case (Cons kv kvs)
  obtain key v where kv: "kv = (key, v)" by (cases kv)
  have "fst ` set (AList.update key (PyStr v) d0) = insert key (fst ` set d0)"
    by (simp add: dom_update)
  then show ?case
    by (simp add: Cons.IH kv)
qed

lemma keys_foldl_none:
  "fst ` set (foldl (\<lambda>d key. AList.update key PyNone d) d0 ks) = fst ` set d0 \<union> set ks"
proof (induction ks arbitrary: d0)
  case Nil
  then show ?case by simp
next
  case (Cons key ks)
  have "fst ` set (AList.update key PyNone d0) = insert key (fst ` set d0)"
    by (simp add: dom_update)
  then show ?case
    by (simp add: Cons.IH)
qed

lemma make_row_keys: "fst ` set (cols (make_row fieldnames row)) \<subseteq> set fieldnames"
  by (auto simp: make_row_def keys_foldl_str keys_foldl_none dest: set_zip_leftD in_set_dropD)

lemma map_of_foldl_str:
  "map_of (foldl (\<lambda>d (key, v). AList.update key (PyStr v) d) d0 kvs) k =
     (case map_of (rev kvs) k of Some v \<Rightarrow> Some (PyStr v) | None \<Rightarrow> map_of d0 k)"
  by (induction kvs arbitrary: d0)
    (auto simp: update_conv' map_add_def split: option.splits)

lemma make_row_full:
  assumes "length row = length fieldnames"
  shows "rest (make_row fieldnames row) = []" and "\<not> has_none (make_row fieldnames row) k"
  using assms
  by (simp_all add: make_row_def has_none_def map_of_foldl_str split: option.splits)

lemma rectangular_rows:
  assumes "rectangular f" and "row \<in> set (dict_reader f)"
  shows "rest row = []" and "\<not> has_none row k"
    and "fst ` set (cols row) \<subseteq> set (output_fieldnames f)"
proof -
  from assms(2) obtain header rows where f: "f = header # rows"
    by (cases f) (simp_all add: dict_reader_def)
  with assms obtain r where r: "row = make_row header r" "length r = length header"
    by (auto simp: rectangular_def dict_reader_def list_all_iff split: if_splits
        dest!: set_takeWhileD)
  from r show "rest row = []" and "\<not> has_none row k"
    by (simp_all add: make_row_full)
  have "set header \<subseteq> set (output_fieldnames f)"
    using f by (auto simp: output_fieldnames_def reader_fieldnames_def Let_def)
  with r(1) make_row_keys [of header r] show "fst ` set (cols row) \<subseteq> set (output_fieldnames f)"
    by blast
qed

lemma dict_to_list_fits:
  assumes "rest row = []" and "fst ` set (cols row) \<subseteq> set fieldnames"
    and "key \<in> set fieldnames"
  shows "\<exists>r. dict_to_list fieldnames (setitem row key v) = Inr r"
  using assms by (auto simp: dict_to_list_def setitem_def dom_update)

section \<open>Requests within one run\<close>

lemma fetch_result_returns:
  "(\<forall>url w. \<exists>res. fst (fetch_bibtex web url w) = Inr res) \<Longrightarrow>
   \<exists>res. fetch_result web url = Inr res"
  by (simp add: fetch_result_def)

lemma cached_bibtex_empty [simp]: "cached_bibtex [] title = Inr None"
  by (simp add: cached_bibtex_def)

lemma row_bibtex_returns:
  assumes "\<not> has_none row ''title''" and "\<not> has_none row ''bibtex_url''"
    and "\<exists>c. cached_bibtex processed_data (field row ''title'') = Inr c"
    and "\<forall>url w. \<exists>res. fst (fetch_bibtex web url w) = Inr res"
  shows "\<exists>b. row_bibtex web processed_data row = Inr b"
proof -
  from assms(3) obtain c where c: "cached_bibtex processed_data (field row ''title'') = Inr c"
    by blast
  from fetch_result_returns [OF assms(4)] obtain res where
    "fetch_result web (field row ''bibtex_url'') = Inr res"
    by blast
  with assms(1,2) c show ?thesis
    by (cases c; cases res) (simp_all add: row_bibtex_def get_strip_field)
qed

lemma written_fetches:
  assumes "written web [] fieldnames row = Inr r"
  shows "fetches [] row \<longleftrightarrow> field row ''bibtex_url'' \<noteq> []"
proof -
  from written_Inr [OF assms] obtain b where "row_bibtex web [] row = Inr b" by blast
  then obtain title url where
    "get_strip row ''title'' = Inr title" "get_strip row ''bibtex_url'' = Inr url"
    by (auto simp: row_bibtex_def split: sum.splits)
  then show ?thesis
    using get_strip_Inr [of row "''title''" title] get_strip_Inr [of row "''bibtex_url''" url]
    by (simp add: fetches_def)
qed

text \<open>
  The loop passes the same Existing-Results Map to every pass
  (\<^const>\<open>process_rows\<close> never changes it). So when the map is empty at the start (no
  prior output, or one without a usable record), a run that returns normally has made,
  in the order of the input, one request for the trimmed URL of every record whose URL
  is not blank, whatever the titles are: also when two records have the same title,
  and even the same URL. And the run does return normally when the input can be read
  and is rectangular and every request returns (a text or nothing).
\<close>

lemma fetch_once_per_record:
  assumes "load_existing_data w outputfile ''title'' = Inr []"
    and "files w inputfile = Some f"
  shows "(\<forall>w'. process_csv web inputfile outputfile w = (Inr (), w') \<longrightarrow>
            requested w' =
              requested w @
              filter (\<lambda>url. url \<noteq> [])
                (map (\<lambda>row. field row ''bibtex_url'') (dict_reader f))) \<and>
         (reader_error f = None \<and> rectangular f \<and>
          (\<forall>url w. \<exists>res. fst (fetch_bibtex web url w) = Inr res) \<longrightarrow>
            (\<exists>w'. process_csv web inputfile outputfile w = (Inr (), w')))"
proof (intro conjI allI impI)
  fix w'
  assume run: "process_csv web inputfile outputfile w = (Inr (), w')"
  let ?fs = "output_fieldnames f"
  let ?rows = "dict_reader f"
  from process_csv_returns [OF run assms(2)] assms(1) obtain outs where
    outs: "list_all2 (\<lambda>row r. written web [] ?fs row = Inr r) ?rows outs"
    and w': "w' = (foldl (\<lambda>w row. row_effect web [] row w) w ?rows)
                    \<lparr>files := (files w)(outputfile \<mapsto> ?fs # outs)\<rparr>"
    by auto
  have "\<forall>row \<in> set ?rows. fetches [] row \<longleftrightarrow> field row ''bibtex_url'' \<noteq> []"
  proof
    fix row
    assume "row \<in> set ?rows"
    with outs obtain r where "written web [] ?fs row = Inr r"
      by (auto simp: list_all2_conv_all_nth in_set_conv_nth)
    then show "fetches [] row \<longleftrightarrow> field row ''bibtex_url'' \<noteq> []"
      by (rule written_fetches)
  qed
  then have "filter (fetches []) ?rows = filter (\<lambda>row. field row ''bibtex_url'' \<noteq> []) ?rows"
    by (intro filter_cong) simp_all
  with w' show "requested w' =
      requested w @
      filter (\<lambda>url. url \<noteq> []) (map (\<lambda>row. field row ''bibtex_url'') ?rows)"
    by (simp add: requested_effects filter_map comp_def)
next
  assume a: "reader_error f = None \<and> rectangular f \<and>
             (\<forall>url w. \<exists>res. fst (fetch_bibtex web url w) = Inr res)"
  let ?fs = "output_fieldnames f"
  let ?rows = "dict_reader f"
  from a have ok: "reader_error f = None" by simp
  have "\<exists>r. written web [] ?fs row = Inr r" if "row \<in> set ?rows" for row
  proof -
    from a have rect: "rectangular f" by simp
    note fits = rectangular_rows [OF rect that]
    from row_bibtex_returns [of row "[]" web] fits(2) a
    obtain b where b: "row_bibtex web [] row = Inr b" by auto
    from dict_to_list_fits [OF fits(1) fits(3) bibtex_data_in_output_fieldnames]
    obtain r where "dict_to_list ?fs (setitem row ''bibtex_data'' b) = Inr r" by blast
    with b show ?thesis by (simp add: written_def)
  qed
  then have "\<exists>outs. list_all2 (\<lambda>row r. written web [] ?fs row = Inr r) ?rows outs"
    by (intro list_all2_choice) blast
  then obtain outs where "list_all2 (\<lambda>row r. written web [] ?fs row = Inr r) ?rows outs"
    by blast
  from process_csv_written [OF assms ok this]
  show "\<exists>w'. process_csv web inputfile outputfile w = (Inr (), w')"
    by blast
qed

lemma web_example_returns: "\<exists>res. fst (fetch_bibtex web_example url w) = Inr res"
  by (simp add: fetch_bibtex_def web_example_def)

text \<open>
  Three records with the same trimmed title \<^verbatim>\<open>A\<close>, the first and the third with the
  same URL, on a web where every request returns: three requests.
\<close>

lemma same_title_three_requests:
  "\<exists>w'. process_csv web_example ''in.csv'' ''out.csv''
           (no_files\<lparr>files := [''in.csv'' \<mapsto> same_title]\<rparr>) = (Inr (), w') \<and>
        requested w' = [''u1'', ''u2'', ''u1'']"
proof -
  let ?w = "no_files\<lparr>files := [''in.csv'' \<mapsto> same_title]\<rparr>"
  have h: "load_existing_data ?w ''out.csv'' ''title'' = Inr []"
    "files ?w ''in.csv'' = Some same_title"
    by (simp_all add: load_existing_data_def no_files_def)
  have r: "reader_error same_title = None" "rectangular same_title"
    by code_simp+
  have u: "filter (\<lambda>url. url \<noteq> []) (map (\<lambda>row. field row ''bibtex_url'') (dict_reader same_title)) =
             [''u1'', ''u2'', ''u1'']"
    by code_simp
  note once = fetch_once_per_record [OF h, of web_example]
  from once r web_example_returns obtain w' where
    run: "process_csv web_example ''in.csv'' ''out.csv'' ?w = (Inr (), w')"
    by blast
  with once u have "requested w' = [''u1'', ''u2'', ''u1'']"
    by (simp add: no_files_def)
  with run show ?thesis by blast
qed

text \<open>
  Claim C10. The map is never updated during a run, but one request per record is not
  what every run makes: a request that ends with an exception which \<^verbatim>\<open>fetch_bibtex\<close>
  does not catch ends the run. Two records have the title \<^verbatim>\<open>A\<close>, the URLs \<^verbatim>\<open>u1\<close>
  and \<^verbatim>\<open>u2\<close>, there is no prior output, and the page of \<^verbatim>\<open>u1\<close> has the section
  without a \<^verbatim>\<open>pre\<close> in it: the run ends with \<^verbatim>\<open>AttributeError\<close> after the request
  for \<^verbatim>\<open>u1\<close>, and \<^verbatim>\<open>u2\<close> is never requested.
\<close>

theorem same_title_second_not_fetched:
  "load_existing_data (no_files\<lparr>files := [''in.csv'' \<mapsto> papers_aa]\<rparr>) ''out.csv'' ''title'' =
     Inr [] \<and>
   map (\<lambda>row. (field row ''title'', field row ''bibtex_url'')) (dict_reader papers_aa) =
     [(''A'', ''u1''), (''A'', ''u2'')] \<and>
   fst (process_csv web_no_pre ''in.csv'' ''out.csv''
          (no_files\<lparr>files := [''in.csv'' \<mapsto> papers_aa]\<rparr>)) = Inl AttributeError \<and>
   requested (snd (process_csv web_no_pre ''in.csv'' ''out.csv''
          (no_files\<lparr>files := [''in.csv'' \<mapsto> papers_aa]\<rparr>))) = [''u1''] \<and>
   files (snd (process_csv web_no_pre ''in.csv'' ''out.csv''
          (no_files\<lparr>files := [''in.csv'' \<mapsto> papers_aa]\<rparr>))) ''out.csv'' = Some [out_header]"
  by code_simp

section \<open>The output while the run is under way\<close>

text \<open>
  The loop on all the records goes through the state that the loop on the first \<open>k\<close>
  records ends in: that state is what killing the process after \<open>k\<close> records leaves.
\<close>

lemma process_rows_append:
  "process_rows web processed_data fieldnames (rows @ later) s =
     (case process_rows web processed_data fieldnames rows s of
        (Inl e, s') \<Rightarrow> (Inl e, s')
      | (Inr u, s') \<Rightarrow> process_rows web processed_data fieldnames later s')"
  by (induction rows arbitrary: s) (auto split: prod.splits sum.splits)

lemma process_rows_take_drop:
  "process_rows web processed_data fieldnames rows s =
     (case process_rows web processed_data fieldnames (take k rows) s of
        (Inl e, s') \<Rightarrow> (Inl e, s')
      | (Inr u, s') \<Rightarrow> process_rows web processed_data fieldnames (drop k rows) s')"
  using process_rows_append [of web processed_data fieldnames "take k rows" "drop k rows" s]
  by simp

text \<open>
  After the first flush nothing is pending: from the first record on, what is left in
  the buffer when the process is killed plays no part.
\<close>

lemma stopped_after_Inr:
  assumes "stopped_after k n web inputfile outputfile w = (Inr (), w')"
    and "files w inputfile = Some f"
  shows "\<exists>processed_data outfile w1.
           process_rows web processed_data (output_fieldnames f) (take k (dict_reader f))
             (writeheader (output_fieldnames f) open_w, w) = (Inr (), (outfile, w1)) \<and>
           files w' outputfile = Some (disk outfile @ take n (pending outfile))"
proof -
  from assms obtain processed_data where
    c: "load_existing_data w outputfile ''title'' = Inr processed_data"
    by (cases "load_existing_data w outputfile ''title''") (simp_all add: stopped_after_def)
  from assms c have ok: "reader_error f = None"
    by (cases "reader_error f") (simp_all add: stopped_after_def)
  obtain res outfile w1 where
    run: "process_rows web processed_data (output_fieldnames f) (take k (dict_reader f))
            (writeheader (output_fieldnames f) open_w, w) = (res, (outfile, w1))"
    by (metis prod.exhaust)
  with assms c ok have "res = Inr ()"
    and "files w' outputfile = Some (disk outfile @ take n (pending outfile))"
    by (cases res; auto simp: stopped_after_def)+
  with run show ?thesis by blast
qed

lemma stopped_after_flushed:
  assumes "files w inputfile = Some f" and "take k (dict_reader f) \<noteq> []"
  shows "stopped_after k n web inputfile outputfile w =
         stopped_after k 0 web inputfile outputfile w"
proof (cases "load_existing_data w outputfile ''title''")
  case (Inl e)
  then show ?thesis by (simp add: stopped_after_def)
next
  case (Inr processed_data)
  show ?thesis
  proof (cases "reader_error f")
    case (Some e)
    with Inr assms(1) show ?thesis by (simp add: stopped_after_def)
  next
    case None
    let ?fs = "output_fieldnames f"
    let ?rows = "take k (dict_reader f)"
    obtain res outfile w1 where
      run: "process_rows web processed_data ?fs ?rows (writeheader ?fs open_w, w) =
              (res, (outfile, w1))"
      by (metis prod.exhaust)
    show ?thesis
    proof (cases res)
      case (Inl e)
      with run None Inr assms(1) show ?thesis by (simp add: stopped_after_def)
    next
      case (Inr u)
      with run have "process_rows web processed_data ?fs ?rows (writeheader ?fs open_w, w) =
              (Inr (), (outfile, w1))"
        by simp
      from process_rows_returns [OF this] obtain outs where
        "list_all2 (\<lambda>row r. written web processed_data ?fs row = Inr r) ?rows outs"
        by blast
      from process_rows_written [OF this, of "writeheader ?fs open_w" w] run assms(2)
      have "pending outfile = []"
        by auto
      with run None Inr \<open>load_existing_data w outputfile ''title'' = Inr processed_data\<close>
        assms(1)
      show ?thesis by (simp add: stopped_after_def)
    qed
  qed
qed

text \<open>
  When the process is killed after \<open>k\<close> records have gone through the loop without
  an exception, then, if \<open>k\<close> is zero (or the input has no record), the destination
  holds what the buffer has let through of the header; otherwise it holds exactly the
  header and, below it, one record for each of the first \<open>k\<close> input records, in the
  order of the input, each of them the complete row of its input record with some
  value under \<^verbatim>\<open>bibtex_data\<close>.
\<close>

lemma stopped_output_complete:
  assumes "stopped_after k n web inputfile outputfile w = (Inr (), w')"
    and "files w inputfile = Some f"
  shows "if take k (dict_reader f) = []
         then files w' outputfile = Some (take n [output_fieldnames f])
         else \<exists>outs. files w' outputfile = Some (output_fieldnames f # outs) \<and>
                list_all2
                  (\<lambda>row r. \<exists>b. dict_to_list (output_fieldnames f)
                                   (setitem row ''bibtex_data'' b) = Inr r)
                  (take k (dict_reader f)) outs"
proof -
  let ?fs = "output_fieldnames f"
  let ?rows = "take k (dict_reader f)"
  from stopped_after_Inr [OF assms] obtain processed_data outfile w1 where
    run: "process_rows web processed_data ?fs ?rows (writeheader ?fs open_w, w) =
            (Inr (), (outfile, w1))"
    and out: "files w' outputfile = Some (disk outfile @ take n (pending outfile))"
    by blast
  from process_rows_returns [OF run] obtain outs where
    outs: "list_all2 (\<lambda>row r. written web processed_data ?fs row = Inr r) ?rows outs"
    by blast
  from process_rows_written [OF outs, of "writeheader ?fs open_w" w] run have
    d: "disk outfile @ take n (pending outfile) =
          (if ?rows = [] then take n [?fs] else ?fs # outs)"
    by (auto simp: writeheader_def open_w_def write_row_def)
  have "list_all2 (\<lambda>row r. \<exists>b. dict_to_list ?fs (setitem row ''bibtex_data'' b) = Inr r)
          ?rows outs"
    using outs by (rule list_all2_mono) (auto dest: written_Inr)
  with d out show ?thesis by auto
qed

text \<open>Stopped after two of the three papers.\<close>

lemma stopped_after_two:
  "\<exists>outs. files (snd (stopped_after 2 0 web_example ''in.csv'' ''out.csv''
                       (no_files\<lparr>files := [''in.csv'' \<mapsto> three_papers]\<rparr>))) ''out.csv'' =
            Some (output_fieldnames three_papers # outs) \<and>
          list_all2
            (\<lambda>row r. \<exists>b. dict_to_list (output_fieldnames three_papers)
                             (setitem row ''bibtex_data'' b) = Inr r)
            (take 2 (dict_reader three_papers)) outs \<and>
          outs = [[''Paper A'', ''http://x/a'', ''@inproceedings{a}''],
                  [''Paper B'', '''', ''No URL'']]"
proof -
  let ?w = "no_files\<lparr>files := [''in.csv'' \<mapsto> three_papers]\<rparr>"
  let ?r = "stopped_after 2 0 web_example ''in.csv'' ''out.csv'' ?w"
  have "fst ?r = Inr ()"
    by code_simp
  then have h: "?r = (Inr (), snd ?r)"
    by (simp add: prod_eq_iff)
  have i: "files ?w ''in.csv'' = Some three_papers"
    by (simp add: no_files_def)
  have n: "take 2 (dict_reader three_papers) \<noteq> []"
    by code_simp
  have e: "files (snd ?r) ''out.csv'' =
             Some [output_fieldnames three_papers,
                   [''Paper A'', ''http://x/a'', ''@inproceedings{a}''],
                   [''Paper B'', '''', ''No URL'']]"
    by code_simp
  from stopped_output_complete [OF h i] n e show ?thesis
    by auto
qed

text \<open>
  Claim C9. Within one run the destination holds, from the first flush on, the header
  and the records written so far. The claim fails for a run that resumes an earlier
  one: \<^verbatim>\<open>open(outputfile, mode="w")\<close> empties the destination when the run starts,
  the records of the prior output are then in memory only, and each of them is written
  again only when the loop reaches its input record. A first run on the three papers
  fetches the citations of \<^verbatim>\<open>Paper A\<close> and \<^verbatim>\<open>Paper C\<close> and returns. A second run
  that is killed after one record, whatever its buffer had let through, leaves the
  header and \<^verbatim>\<open>Paper A\<close>: the record in flight was \<^verbatim>\<open>Paper B\<close>, and the citation
  of \<^verbatim>\<open>Paper C\<close>, which the first run had fetched and saved, is lost with it.
\<close>

theorem resumed_run_loses_citation:
  "files (snd (process_csv web_echo ''in.csv'' ''out.csv''
                 (no_files\<lparr>files := [''in.csv'' \<mapsto> three_papers]\<rparr>))) ''out.csv'' =
     Some [out_header,
           [''Paper A'', ''http://x/a'', ''@misc{http://x/a}''],
           [''Paper B'', '''', ''No URL''],
           [''Paper C'', ''http://x/c'', ''@misc{http://x/c}'']] \<and>
   (\<forall>n. fst (stopped_after 1 n web_echo ''in.csv'' ''out.csv''
                 (snd (process_csv web_echo ''in.csv'' ''out.csv''
                         (no_files\<lparr>files := [''in.csv'' \<mapsto> three_papers]\<rparr>)))) = Inr () \<and>
        files (snd (stopped_after 1 n web_echo ''in.csv'' ''out.csv''
                 (snd (process_csv web_echo ''in.csv'' ''out.csv''
                         (no_files\<lparr>files := [''in.csv'' \<mapsto> three_papers]\<rparr>))))) ''out.csv'' =
          Some [out_header, [''Paper A'', ''http://x/a'', ''@misc{http://x/a}'']])"
proof -
  let ?w1 = "snd (process_csv web_echo ''in.csv'' ''out.csv''
                    (no_files\<lparr>files := [''in.csv'' \<mapsto> three_papers]\<rparr>))"
  have first: "files ?w1 ''out.csv'' =
     Some [out_header,
           [''Paper A'', ''http://x/a'', ''@misc{http://x/a}''],
           [''Paper B'', '''', ''No URL''],
           [''Paper C'', ''http://x/c'', ''@misc{http://x/c}'']]"
    by code_simp
  have inp: "files ?w1 ''in.csv'' = Some three_papers"
    by code_simp
  have ne: "take 1 (dict_reader three_papers) \<noteq> []"
    by code_simp
  have zero: "fst (stopped_after 1 0 web_echo ''in.csv'' ''out.csv'' ?w1) = Inr ()"
    "files (snd (stopped_after 1 0 web_echo ''in.csv'' ''out.csv'' ?w1)) ''out.csv'' =
       Some [out_header, [''Paper A'', ''http://x/a'', ''@misc{http://x/a}'']]"
    by code_simp+
  have later: "fst (stopped_after 1 n web_echo ''in.csv'' ''out.csv'' ?w1) = Inr () \<and>
        files (snd (stopped_after 1 n web_echo ''in.csv'' ''out.csv'' ?w1)) ''out.csv'' =
          Some [out_header, [''Paper A'', ''http://x/a'', ''@misc{http://x/a}'']]" for n
  proof -
    have eq: "stopped_after 1 n web_echo ''in.csv'' ''out.csv'' ?w1 =
              stopped_after 1 0 web_echo ''in.csv'' ''out.csv'' ?w1"
      using inp ne by (rule stopped_after_flushed)
    from zero show ?thesis
      unfolding eq by (rule conjI)
  qed
  from first later show ?thesis
    by blast
qed

section \<open>The loader\<close>

lemma load_rows_map_of:
  "\<forall>row \<in> set rows. \<not> has_none row key \<Longrightarrow>
   \<exists>m. load_rows key rows acc = Inr m \<and>
       (\<forall>k. map_of m k =
          (case find (\<lambda>row. field row key = k \<and> k \<noteq> []) (rev rows) of
             Some row \<Rightarrow> Some row
           | None \<Rightarrow> map_of acc k))"
proof (induction rows arbitrary: acc)
  case Nil
  then show ?case by simp
next
  case (Cons row rows)
  let ?acc = "if field row key \<noteq> [] then AList.update (field row key) row acc else acc"
  from Cons.prems have ok: "get_strip row key = Inr (field row key)"
    by (simp add: get_strip_field)
  from Cons.prems have "\<forall>row \<in> set rows. \<not> has_none row key" by simp
  from Cons.IH [OF this, of ?acc] obtain m where
    m: "load_rows key rows ?acc = Inr m"
    and look: "\<And>k. map_of m k =
          (case find (\<lambda>row. field row key = k \<and> k \<noteq> []) (rev rows) of
             Some row \<Rightarrow> Some row
           | None \<Rightarrow> map_of ?acc k)"
    by blast
  have "load_rows key (row # rows) acc = Inr m"
    using ok m by simp
  moreover have "map_of m k =
          (case find (\<lambda>row. field row key = k \<and> k \<noteq> []) (rev (row # rows)) of
             Some row \<Rightarrow> Some row
           | None \<Rightarrow> map_of acc k)" for k
    by (simp add: look find_append update_conv' split: option.splits)
  ultimately show ?case by blast
qed

text \<open>
  When a record has \<^verbatim>\<open>None\<close> under the key, the loop raises, whatever the other
  records are.
\<close>

lemma load_rows_none:
  "\<exists>row \<in> set rows. has_none row key \<Longrightarrow> load_rows key rows acc = Inl AttributeError"
proof (induction rows arbitrary: acc)
  case Nil
  then show ?case by simp
next
  case (Cons row rows)
  show ?case
  proof (cases "has_none row key")
    case True
    then show ?thesis by (simp add: get_strip_none)
  next
    case False
    with Cons.prems have "\<exists>row \<in> set rows. has_none row key" by simp
    with Cons.IH False show ?thesis by (simp add: get_strip_field)
  qed
qed

text \<open>
  Claim C6, the Existing-Results Loader. The claim fails on a record cut short before
  the key column, a record whose key field is absent: \<^verbatim>\<open>csv.DictReader\<close> puts
  \<^verbatim>\<open>None\<close> under the missing key, the default of \<^verbatim>\<open>row.get(key_field, "")\<close> does
  not apply, and \<^verbatim>\<open>.strip()\<close> at line 51 raises \<^verbatim>\<open>AttributeError\<close> instead of the
  record being skipped. The file here has the header \<^verbatim>\<open>bibtex_data,title\<close> and the
  one record \<^verbatim>\<open>x\<close>.
\<close>

theorem load_existing_data_short_row:
  "load_existing_data
     (no_files\<lparr>files := [''out.csv'' \<mapsto> [[''bibtex_data'', ''title''], [''x'']]]\<rparr>)
     ''out.csv'' ''title'' = Inl AttributeError"
  by code_simp

text \<open>
  The rest of what the loader is to do, it does. For a path that does not exist it
  returns the empty mapping. For a file that can be read and of which no record is
  cut short before the key column, it returns a mapping in which no key is blank and
  every other key \<open>k\<close> leads to the last record, in the order of the file, whose
  trimmed key field is \<open>k\<close>: a record whose key field is blank, or whose column is
  missing from the header, is under no key, and of two records with the same trimmed
  key the later one is there.
\<close>

lemma load_existing_data_keys:
  "(files w path = None \<longrightarrow> load_existing_data w path key_field = Inr []) \<and>
   (\<forall>f. files w path = Some f \<and> reader_error f = None \<and>
        (\<forall>row \<in> set (dict_reader f). \<not> has_none row key_field) \<longrightarrow>
      (\<exists>m. load_existing_data w path key_field = Inr m \<and>
         (\<forall>k. map_of m k =
            (if k = [] then None
             else find (\<lambda>row. field row key_field = k) (rev (dict_reader f))))))"
proof (intro conjI allI impI)
  assume "files w path = None"
  then show "load_existing_data w path key_field = Inr []"
    by (simp add: load_existing_data_def)
next
  fix f
  assume a: "files w path = Some f \<and> reader_error f = None \<and>
             (\<forall>row \<in> set (dict_reader f). \<not> has_none row key_field)"
  then obtain m where m: "load_rows key_field (dict_reader f) [] = Inr m"
    and look: "\<And>k. map_of m k =
          (case find (\<lambda>row. field row key_field = k \<and> k \<noteq> []) (rev (dict_reader f)) of
             Some row \<Rightarrow> Some row
           | None \<Rightarrow> map_of [] k)"
    using load_rows_map_of [of "dict_reader f" key_field "[]"] by blast
  have "map_of m k =
          (if k = [] then None
           else find (\<lambda>row. field row key_field = k) (rev (dict_reader f)))" for k
  proof (cases "k = []")
    case True
    have "find (\<lambda>row. field row key_field = k \<and> k \<noteq> []) (rev (dict_reader f)) = None"
      using True by (simp add: find_None_iff)
    with True look [of k] show ?thesis by simp
  next
    case False
    then have "(\<lambda>row. field row key_field = k \<and> k \<noteq> []) = (\<lambda>row. field row key_field = k)"
      by auto
    with False look [of k] show ?thesis
      by (simp split: option.splits)
  qed
  with a m show "\<exists>m. load_existing_data w path key_field = Inr m \<and>
         (\<forall>k. map_of m k =
            (if k = [] then None
             else find (\<lambda>row. field row key_field = k) (rev (dict_reader f))))"
    by (auto simp: load_existing_data_def)
qed

text \<open>
  On \<^const>\<open>prior_dup\<close>: the title \<^verbatim>\<open>A\<close> leads to the third record, the later of
  the two, and the record with the blank title is under no key.
\<close>

lemma load_existing_data_prior_dup:
  "load_existing_data no_files ''out.csv'' ''title'' = Inr [] \<and>
   (\<exists>m. load_existing_data (no_files\<lparr>files := [''out.csv'' \<mapsto> prior_dup]\<rparr>)
          ''out.csv'' ''title'' = Inr m \<and>
        map_of m ''A'' = Some (make_row out_header [''A '', ''u2'', ''y'']) \<and>
        map_of m [] = None \<and> map_of m '' '' = None)"
proof -
  let ?w = "no_files\<lparr>files := [''out.csv'' \<mapsto> prior_dup]\<rparr>"
  have 1: "load_existing_data no_files ''out.csv'' ''title'' = Inr []"
    using load_existing_data_keys [of no_files "''out.csv''" "''title''"]
    by (simp add: no_files_def)
  have "list_all (\<lambda>row. \<not> has_none row ''title'') (dict_reader prior_dup)"
    and ok: "reader_error prior_dup = None"
    by code_simp+
  then have h: "files ?w ''out.csv'' = Some prior_dup \<and> reader_error prior_dup = None \<and>
        (\<forall>row \<in> set (dict_reader prior_dup). \<not> has_none row ''title'')"
    by (simp add: list_all_iff)
  from load_existing_data_keys [of ?w "''out.csv''" "''title''"] h
  obtain m where m: "load_existing_data ?w ''out.csv'' ''title'' = Inr m"
    and look: "\<And>k. map_of m k =
            (if k = [] then None
             else find (\<lambda>row. field row ''title'' = k) (rev (dict_reader prior_dup)))"
    by blast
  have "find (\<lambda>row. field row ''title'' = ''A'') (rev (dict_reader prior_dup)) =
          Some (make_row out_header [''A '', ''u2'', ''y''])"
    by code_simp
  then have "map_of m ''A'' = Some (make_row out_header [''A '', ''u2'', ''y''])"
    by (simp add: look)
  moreover have "map_of m [] = None"
    by (simp add: look)
  moreover have "find (\<lambda>row. field row ''title'' = '' '') (rev (dict_reader prior_dup)) = None"
    by code_simp
  then have "map_of m '' '' = None"
    by (simp add: look)
  ultimately show ?thesis using 1 m by blast
qed

section \<open>The statistics\<close>

lemma count_success_eq:
  "\<forall>row \<in> set rows. \<not> has_none row ''bibtex_data'' \<Longrightarrow>
   count_success rows n = Inr (n + length (filter is_success rows))"
  by (induction rows arbitrary: n) (simp_all add: get_strip_field is_success_def)

lemma count_success_none:
  "\<exists>row \<in> set rows. has_none row ''bibtex_data'' \<Longrightarrow>
   count_success rows n = Inl AttributeError"
proof (induction rows arbitrary: n)
  case Nil
  then show ?case by simp
next
  case (Cons row rows)
  show ?case
  proof (cases "has_none row ''bibtex_data''")
    case True
    then show ?thesis by (simp add: get_strip_none)
  next
    case False
    with Cons.prems have "\<exists>row \<in> set rows. has_none row ''bibtex_data''" by simp
    with Cons.IH False show ?thesis by (simp add: get_strip_field)
  qed
qed

text \<open>
  Claim C7, the Statistics Reporter. The claim fails on an output file with a record
  cut short before the \<^verbatim>\<open>bibtex_data\<close> column: \<^verbatim>\<open>row.get("bibtex_data", "")\<close> is
  \<^verbatim>\<open>None\<close>, \<^verbatim>\<open>.strip()\<close> at line 73 raises \<^verbatim>\<open>AttributeError\<close>, and neither of
  the two counts is reported: the log is as it was. The input here has one record, the
  output has the header \<^verbatim>\<open>title,bibtex_data\<close> and the one record \<^verbatim>\<open>A\<close>.
\<close>

theorem print_statistics_short_row:
  "print_statistics ''in.csv'' ''out.csv''
     (no_files\<lparr>files := [''in.csv'' \<mapsto> [[''title''], [''A'']],
                          ''out.csv'' \<mapsto> [[''title'', ''bibtex_data''], [''A'']]]\<rparr>) =
     (Inl AttributeError,
      no_files\<lparr>files := [''in.csv'' \<mapsto> [[''title''], [''A'']],
                          ''out.csv'' \<mapsto> [[''title'', ''bibtex_data''], [''A'']]]\<rparr>)"
  by (simp add: print_statistics_def dict_reader_def reader_error_def readable_def
      field_size_limit_def make_row_def get_strip_def no_files_def)

text \<open>
  The rest of what the reporter is to do, it does. When both files can be read and no
  record of the output file is cut short before the \<^verbatim>\<open>bibtex_data\<close> column, the
  reporter returns and changes nothing but the log, to which it adds, in this order: a
  warning when the input file does not exist; the total, which is the number of
  records of the input file and zero when there is none; and the number of records of
  the output file whose trimmed \<^verbatim>\<open>bibtex_data\<close> is neither blank nor one of the two
  reserved values. The files are as they were.
\<close>

lemma print_statistics_counts:
  assumes "\<forall>f. files w inputfile = Some f \<longrightarrow> reader_error f = None"
    and "\<forall>f. files w outputfile = Some f \<longrightarrow>
           reader_error f = None \<and>
           (\<forall>row \<in> set (dict_reader f). \<not> has_none row ''bibtex_data'')"
  shows "print_statistics inputfile outputfile w =
           (Inr (),
            w\<lparr>logged := logged w
                 @ (case files w inputfile of
                      None \<Rightarrow> [(WARNING, InputMissing inputfile)]
                    | Some f \<Rightarrow> [])
                 @ [(ERROR, TotalEntries inputfile
                       (case files w inputfile of
                          None \<Rightarrow> 0
                        | Some f \<Rightarrow> length (dict_reader f))),
                    (ERROR, SuccessEntries outputfile
                       (case files w outputfile of
                          None \<Rightarrow> 0
                        | Some f \<Rightarrow> length (filter is_success (dict_reader f))))]\<rparr>)"
proof -
  have out: "(case files w outputfile of
                Some f \<Rightarrow>
                  (case count_success (dict_reader f) 0 of
                     Inl e \<Rightarrow> Inl e
                   | Inr success_entries \<Rightarrow>
                       (case reader_error f of
                          Some e \<Rightarrow> Inl e
                        | None \<Rightarrow> Inr success_entries))
              | None \<Rightarrow> Inr 0) =
             Inr (case files w outputfile of
                    None \<Rightarrow> 0
                  | Some f \<Rightarrow> length (filter is_success (dict_reader f)))"
    using assms(2) by (cases "files w outputfile") (simp_all add: count_success_eq)
  show ?thesis
  proof (cases "files w inputfile")
    case None
    then show ?thesis
      using out by (simp add: print_statistics_def logger_def)
  next
    case (Some f)
    with assms(1) have "reader_error f = None" by simp
    with Some show ?thesis
      using out by (simp add: print_statistics_def logger_def)
  qed
qed

text \<open>
  The scenario of the spec (total 5, success 3), and a world without files, where the
  warning comes first and both counts are zero.
\<close>

lemma print_statistics_five:
  "print_statistics ''in.csv'' ''out.csv''
     (no_files\<lparr>files := [''in.csv'' \<mapsto> five_papers, ''out.csv'' \<mapsto> five_results]\<rparr>) =
     (Inr (),
      \<lparr>files = [''in.csv'' \<mapsto> five_papers, ''out.csv'' \<mapsto> five_results],
       requested = [],
       logged = [(ERROR, TotalEntries ''in.csv'' 5), (ERROR, SuccessEntries ''out.csv'' 3)]\<rparr>) \<and>
   print_statistics ''in.csv'' ''out.csv'' no_files =
     (Inr (),
      \<lparr>files = Map.empty,
       requested = [],
       logged = [(WARNING, InputMissing ''in.csv''), (ERROR, TotalEntries ''in.csv'' 0),
                 (ERROR, SuccessEntries ''out.csv'' 0)]\<rparr>)"
proof -
  let ?w = "no_files\<lparr>files := [''in.csv'' \<mapsto> five_papers, ''out.csv'' \<mapsto> five_results]\<rparr>"
  have "list_all (\<lambda>row. \<not> has_none row ''bibtex_data'') (dict_reader five_results)"
    and ok: "reader_error five_papers = None" "reader_error five_results = None"
    by code_simp+
  then have h: "\<forall>f. files ?w ''in.csv'' = Some f \<longrightarrow> reader_error f = None"
    "\<forall>f. files ?w ''out.csv'' = Some f \<longrightarrow>
       reader_error f = None \<and> (\<forall>row \<in> set (dict_reader f). \<not> has_none row ''bibtex_data'')"
    by (simp_all add: list_all_iff)
  have n: "length (dict_reader five_papers) = 5"
    "length (filter is_success (dict_reader five_results)) = 3"
    by code_simp+
  have h0: "\<forall>f. files no_files ''in.csv'' = Some f \<longrightarrow> reader_error f = None"
    "\<forall>f. files no_files ''out.csv'' = Some f \<longrightarrow>
       reader_error f = None \<and> (\<forall>row \<in> set (dict_reader f). \<not> has_none row ''bibtex_data'')"
    by (simp_all add: no_files_def)
  have "print_statistics ''in.csv'' ''out.csv'' ?w =
     (Inr (),
      \<lparr>files = [''in.csv'' \<mapsto> five_papers, ''out.csv'' \<mapsto> five_results],
       requested = [],
       logged = [(ERROR, TotalEntries ''in.csv'' 5), (ERROR, SuccessEntries ''out.csv'' 3)]\<rparr>)"
    using print_statistics_counts [OF h] n
    by (simp add: no_files_def)
  moreover have "print_statistics ''in.csv'' ''out.csv'' no_files =
     (Inr (),
      \<lparr>files = Map.empty,
       requested = [],
       logged = [(WARNING, InputMissing ''in.csv''), (ERROR, TotalEntries ''in.csv'' 0),
                 (ERROR, SuccessEntries ''out.csv'' 0)]\<rparr>)"
    using print_statistics_counts [OF h0]
    by (simp add: no_files_def)
  ultimately show ?thesis by simp
qed

text \<open>
  Which of these calls are shown depends on the level of the script: the journal
  script (\<^verbatim>\<open>INFO\<close>) shows the warning, the conference script (\<^verbatim>\<open>ERROR\<close>, "show
  only ERROR level messages") shows the two counts only.
\<close>

lemma missing_input_shown:
  "shown (log_level journal_config) (snd (print_statistics ''in.csv'' ''out.csv'' no_files)) =
     [(WARNING, InputMissing ''in.csv''), (ERROR, TotalEntries ''in.csv'' 0),
      (ERROR, SuccessEntries ''out.csv'' 0)]"
  "shown (log_level conference_config) (snd (print_statistics ''in.csv'' ''out.csv'' no_files)) =
     [(ERROR, TotalEntries ''in.csv'' 0), (ERROR, SuccessEntries ''out.csv'' 0)]"
  by (simp_all add: print_statistics_def no_files_def logger_def shown_def levelno_def
      journal_config_def conference_config_def)

section \<open>The two scripts compute the same\<close>

lemma journal_load_rows_eq: "journal_load_rows = load_rows"
proof (intro ext)
  fix key rows acc
  show "journal_load_rows key rows acc = load_rows key rows acc"
    by (induction rows arbitrary: acc) (simp_all split: sum.splits)
qed

lemma journal_count_success_eq: "journal_count_success = count_success"
proof (intro ext)
  fix rows n
  show "journal_count_success rows n = count_success rows n"
    by (induction rows arbitrary: n) (simp_all split: sum.splits)
qed

lemma journal_fetch_bibtex_eq: "journal_fetch_bibtex = fetch_bibtex"
proof (intro ext)
  fix web url w
  show "journal_fetch_bibtex web url w = fetch_bibtex web url w"
  proof (cases "web url")
    case RequestException
    then show ?thesis
      by (simp add: journal_fetch_bibtex_def fetch_bibtex_def Let_def)
  next
    case (Response status doc)
    obtain bibtex_section where doc: "doc = Soup bibtex_section"
      by (cases doc)
    show ?thesis
    proof (cases bibtex_section)
      case None
      with Response doc show ?thesis
        by (simp add: journal_fetch_bibtex_def fetch_bibtex_def Let_def)
    next
      case (Some d)
      obtain pre where "d = Div pre" by (cases d)
      with Some Response doc show ?thesis
        by (cases pre) (simp_all add: journal_fetch_bibtex_def fetch_bibtex_def Let_def)
    qed
  qed
qed

lemma journal_load_existing_data_eq: "journal_load_existing_data = load_existing_data"
  unfolding journal_load_existing_data_def load_existing_data_def journal_load_rows_eq
  by (rule refl)

lemma journal_print_statistics_eq: "journal_print_statistics = print_statistics"
  unfolding journal_print_statistics_def print_statistics_def journal_count_success_eq
  by (rule refl)

lemma journal_process_row_eq: "journal_process_row = process_row"
  unfolding journal_process_row_def process_row_def cached_bibtex_def journal_fetch_bibtex_eq
  by (rule refl)

lemma journal_process_rows_eq: "journal_process_rows = process_rows"
proof (intro ext)
  fix web cache fieldnames rows s
  show "journal_process_rows web cache fieldnames rows s =
        process_rows web cache fieldnames rows s"
    by (induction rows arbitrary: s)
      (simp_all add: journal_process_row_eq split: prod.splits sum.splits)
qed

lemma journal_process_csv_eq: "journal_process_csv = process_csv"
  unfolding journal_process_csv_def process_csv_def journal_load_existing_data_eq
    journal_process_rows_eq
  by (rule refl)

lemma journal_main_eq: "journal_main = main"
  unfolding journal_main_def main_def journal_print_statistics_eq journal_process_csv_eq
  by (rule refl)

text \<open>
  Claim C8. The functions of the journal script are those of the conference script:
  on every web, every pair of paths and every world they return the same result and
  leave the same files, the same requests and the same calls to the logger. The
  scripts differ in the default paths of the command line and in the level from which
  the calls to the logger are shown.
\<close>

theorem journal_equals_conference:
  "journal_fetch_bibtex = fetch_bibtex \<and>
   journal_load_existing_data = load_existing_data \<and>
   journal_print_statistics = print_statistics \<and>
   journal_process_csv = process_csv \<and>
   journal_main = main \<and>
   default_inputfile journal_config \<noteq> default_inputfile conference_config \<and>
   default_outputfile journal_config \<noteq> default_outputfile conference_config \<and>
   log_level journal_config \<noteq> log_level conference_config"
  by (simp add: journal_fetch_bibtex_eq journal_load_existing_data_eq
      journal_print_statistics_eq journal_process_csv_eq journal_main_eq
      journal_config_def conference_config_def)

section \<open>Running twice\<close>

text \<open>
  The second run reads the records of the first output back: a written row, read by
  \<^verbatim>\<open>csv.DictReader\<close> under the same header, has the cells of the row under the field
  names.
\<close>

lemma map_of_foldl_zip:
  "map_of (foldl (\<lambda>d (key, v). AList.update key (PyStr v) d) d0 (zip ks (map g ks))) k =
     (if k \<in> set ks then Some (PyStr (g k)) else map_of d0 k)"
  by (induction ks arbitrary: d0) (simp_all add: update_conv')

lemma make_row_written:
  "map_of (cols (make_row fieldnames (map g fieldnames))) k =
     (if k \<in> set fieldnames then Some (PyStr (g k)) else None)"
  by (simp add: make_row_def map_of_foldl_zip)

lemma reread:
  assumes "dict_to_list fieldnames (setitem row ''bibtex_data'' b) = Inr r"
    and "get_strip row ''title'' = Inr title"
    and "''bibtex_data'' \<in> set fieldnames"
  shows "get_strip (make_row fieldnames r) ''title'' = Inr title"
    and "get_strip (make_row fieldnames r) ''bibtex_data'' = Inr (strip b)"
    and "r \<noteq> []"
proof -
  let ?g = "\<lambda>k. if k = ''bibtex_data'' then b else cell (map_of (cols row) k)"
  from dict_to_list_setitem [OF assms(1)] have r: "r = map ?g fieldnames" .
  from assms(3) r show "r \<noteq> []" by auto
  from assms(3) show "get_strip (make_row fieldnames r) ''bibtex_data'' = Inr (strip b)"
    by (simp add: r get_strip_def make_row_written)
  show "get_strip (make_row fieldnames r) ''title'' = Inr title"
  proof (cases "''title'' \<in> set fieldnames")
    case True
    with assms(2) show ?thesis
      by (auto simp: r get_strip_def make_row_written cell_def
          split: option.splits pyval.splits)
  next
    case False
    from assms(1) have "fst ` set (cols (setitem row ''bibtex_data'' b)) \<subseteq> set fieldnames"
      by (auto simp: dict_to_list_def split: if_splits)
    with False have "''title'' \<notin> fst ` set (cols row)"
      by (auto simp: setitem_def dom_update)
    then have "map_of (cols row) ''title'' = None"
      by (simp add: map_of_eq_None_iff)
    with assms(2) False show ?thesis
      by (simp add: r get_strip_def make_row_written)
  qed
qed

lemma row_bibtex_real_or_no_url:
  assumes "\<forall>url w. \<exists>t w'. fetch_bibtex web url w = (Inr (Some t), w') \<and> real_bibtex t"
    and "row_bibtex web processed_data row = Inr b"
  shows "real_bibtex b \<or> (b = no_url \<and> get_strip row ''bibtex_url'' = Inr [])"
proof -
  from assms(2) obtain title url where
    t: "get_strip row ''title'' = Inr title" and u: "get_strip row ''bibtex_url'' = Inr url"
    by (auto simp: row_bibtex_def split: sum.splits)
  from assms(1) obtain t' w' where
    "fetch_bibtex web url no_files = (Inr (Some t'), w')" "real_bibtex t'"
    by blast
  then have f: "fetch_result web url = Inr (Some t')" "real_bibtex t'" "t' \<noteq> []"
    by (simp_all add: fetch_result_def real_bibtex_def)
  show ?thesis
  proof (cases "cached_bibtex processed_data title")
    case (Inl e)
    with assms(2) t u show ?thesis by (simp add: row_bibtex_def)
  next
    case (Inr c)
    show ?thesis
    proof (cases c)
      case (Some existing)
      with Inr assms(2) t u cached_bibtex_Some [of processed_data title existing]
      show ?thesis by (simp add: row_bibtex_def)
    next
      case None
      with Inr assms(2) t u f show ?thesis
        by (cases "url = []") (auto simp: row_bibtex_def)
    qed
  qed
qed

lemma second_pass:
  assumes "\<forall>url w. \<exists>t w'. fetch_bibtex web url w = (Inr (Some t), w') \<and> real_bibtex t"
    and "written web cache0 fieldnames row = Inr r"
    and "''bibtex_data'' \<in> set fieldnames"
    and "map_of cache1 (field row ''title'') = Some (make_row fieldnames r)"
  shows "written web cache1 fieldnames row = Inr r" and "\<not> fetches cache1 row"
proof -
  from written_Inr [OF assms(2)] obtain b where
    b: "row_bibtex web cache0 row = Inr b"
    and r: "dict_to_list fieldnames (setitem row ''bibtex_data'' b) = Inr r"
    by blast
  from b obtain title url where
    t: "get_strip row ''title'' = Inr title" and u: "get_strip row ''bibtex_url'' = Inr url"
    by (auto simp: row_bibtex_def split: sum.splits)
  from get_strip_Inr [OF t] get_strip_Inr [OF u] have
    fld: "field row ''title'' = title" "field row ''bibtex_url'' = url"
      "\<not> has_none row ''title''" "\<not> has_none row ''bibtex_url''"
    by simp_all
  from row_bibtex_stripped [OF b] have sb: "strip b = b" by simp
  from reread(2) [OF r t assms(3)] sb have
    "get_strip (make_row fieldnames r) ''bibtex_data'' = Inr b" by simp
  with assms(4) fld(1) have
    c1: "cached_bibtex cache1 title = Inr (if real_bibtex b then Some b else None)"
    by (simp add: cached_bibtex_def)
  from row_bibtex_real_or_no_url [OF assms(1) b] u have
    cases: "real_bibtex b \<or> (b = no_url \<and> url = [])" by auto
  have "row_bibtex web cache1 row = Inr b"
    using cases t u c1 by (auto simp: row_bibtex_def)
  with r show "written web cache1 fieldnames row = Inr r"
    by (simp add: written_def)
  show "\<not> fetches cache1 row"
    using cases c1 fld by (auto simp: fetches_def)
qed

lemma no_effects:
  "\<forall>row \<in> set rows. \<not> fetches processed_data row \<Longrightarrow>
   foldl (\<lambda>w row. row_effect web processed_data row w) w rows = w"
  by (induction rows arbitrary: w) (simp_all add: row_effect_def)

lemma dict_reader_written:
  assumes "readable fieldnames" and "\<forall>r \<in> set outs. r \<noteq> [] \<and> readable r"
  shows "dict_reader (fieldnames # outs) = map (make_row fieldnames) outs"
proof -
  from assms(2) have all_rows: "takeWhile readable outs = outs"
    by (simp add: takeWhile_eq_all_conv)
  from assms(2) have none_blank: "filter (\<lambda>row. row \<noteq> []) outs = outs"
    by (simp add: filter_id_conv)
  from assms(1) show ?thesis
    by (simp add: dict_reader_def all_rows none_blank)
qed

lemma make_row_written_no_none:
  assumes "dict_to_list fieldnames row = Inr r"
  shows "\<not> has_none (make_row fieldnames r) k"
proof -
  from assms have "r = map (\<lambda>key. cell (map_of (cols row) key)) fieldnames"
    by (auto simp: dict_to_list_def split: if_splits)
  then show ?thesis
    by (simp add: has_none_def make_row_written)
qed

text \<open>
  The first output can be read back: no cell of it exceeds the limit of the reader.
  The cells of a record that was read are within the limit, trimming makes a text no
  longer, and so the cells of a written row are within the limit when the fetched
  texts are.
\<close>

lemma strip_length: "length (strip s) \<le> length s"
proof -
  have "length (strip s) \<le> length (dropWhile isspace s)"
    using length_dropWhile_le [of isspace "rev (dropWhile isspace s)"]
    by (simp add: strip_def)
  also have "\<dots> \<le> length s"
    by (rule length_dropWhile_le)
  finally show ?thesis .
qed

lemma map_of_foldl_none:
  "map_of (foldl (\<lambda>d key. AList.update key PyNone d) d0 ks) k =
     (if k \<in> set ks then Some PyNone else map_of d0 k)"
  by (induction ks arbitrary: d0) (simp_all add: update_conv')

lemma make_row_cells:
  assumes "map_of (cols (make_row fieldnames row)) k = Some (PyStr s)"
  shows "s \<in> set row"
proof -
  from assms have "map_of (rev (zip fieldnames row)) k = Some s"
    by (auto simp: make_row_def map_of_foldl_none map_of_foldl_str
        split: if_splits option.splits)
  then have "(k, s) \<in> set (zip fieldnames row)"
    by (auto dest: map_of_SomeD)
  then show ?thesis
    by (rule set_zip_rightD)
qed

lemma dict_reader_cells:
  assumes "reader_error f = None" and "row \<in> set (dict_reader f)"
    and "map_of (cols row) k = Some (PyStr s)"
  shows "int (length s) \<le> field_size_limit"
proof -
  from assms(2) obtain header rows where f: "f = header # rows"
    by (cases f) (simp_all add: dict_reader_def)
  with assms(2) obtain r where r: "row = make_row header r" "r \<in> set rows"
    by (auto simp: dict_reader_def split: if_splits dest!: set_takeWhileD)
  from assms(1) f r(2) have "readable r"
    by (auto simp: reader_error_def list_all_iff split: if_splits)
  moreover from assms(3) r(1) have "s \<in> set r"
    by (auto dest: make_row_cells)
  ultimately show ?thesis
    by (auto simp: readable_def list_all_iff)
qed

lemma load_rows_entries:
  "load_rows key rows acc = Inr m \<Longrightarrow> map_of m k = Some entry \<Longrightarrow>
   entry \<in> set rows \<or> map_of acc k = Some entry"
proof (induction rows arbitrary: acc)
  case Nil
  then show ?case by simp
next
  case (Cons row rows)
  from Cons.prems(1) obtain t where
    later: "load_rows key rows (if t \<noteq> [] then AList.update t row acc else acc) = Inr m"
    by (cases "get_strip row key") simp_all
  from Cons.IH [OF later Cons.prems(2)] show ?case
    by (auto simp: update_conv' split: if_splits)
qed

lemma load_existing_data_cells:
  assumes "load_existing_data w path key = Inr m" and "map_of m k = Some entry"
    and "map_of (cols entry) c = Some (PyStr s)"
  shows "int (length s) \<le> field_size_limit"
proof (cases "files w path")
  case None
  with assms(1,2) show ?thesis
    by (auto simp: load_existing_data_def)
next
  case (Some f)
  with assms(1) have l: "load_rows key (dict_reader f) [] = Inr m"
    and ok: "reader_error f = None"
    by (auto simp: load_existing_data_def split: sum.splits option.splits)
  from load_rows_entries [OF l assms(2)] have "entry \<in> set (dict_reader f)"
    by simp
  from dict_reader_cells [OF ok this assms(3)] show ?thesis .
qed

lemma get_strip_length:
  assumes "get_strip row key = Inr v"
    and "\<forall>s. map_of (cols row) key = Some (PyStr s) \<longrightarrow> int (length s) \<le> field_size_limit"
  shows "int (length v) \<le> field_size_limit"
proof (cases "map_of (cols row) key")
  case None
  with assms(1) show ?thesis
    by (simp add: get_strip_def field_size_limit_def)
next
  case (Some x)
  with assms(1) obtain s where s: "x = PyStr s" "v = strip s"
    by (cases x) (auto simp: get_strip_def)
  with Some assms(2) have "int (length s) \<le> field_size_limit"
    by simp
  with strip_length [of s] s(2) show ?thesis
    by simp
qed

lemma row_bibtex_length:
  assumes "\<forall>url w. \<exists>t w'. fetch_bibtex web url w = (Inr (Some t), w') \<and>
             int (length t) \<le> field_size_limit"
    and "\<forall>title entry s. map_of cache title = Some entry \<longrightarrow>
           map_of (cols entry) ''bibtex_data'' = Some (PyStr s) \<longrightarrow>
           int (length s) \<le> field_size_limit"
    and "row_bibtex web cache row = Inr b"
  shows "int (length b) \<le> field_size_limit"
proof -
  from assms(3) obtain title url where
    t: "get_strip row ''title'' = Inr title" and u: "get_strip row ''bibtex_url'' = Inr url"
    by (auto simp: row_bibtex_def split: sum.splits)
  from assms(1) obtain t' w' where
    "fetch_bibtex web url no_files = (Inr (Some t'), w')" "int (length t') \<le> field_size_limit"
    by blast
  then have f: "fetch_result web url = Inr (Some t')" "int (length t') \<le> field_size_limit"
    by (simp_all add: fetch_result_def)
  have reserved: "int (length not_available) \<le> field_size_limit"
    "int (length no_url) \<le> field_size_limit"
    by (simp_all add: not_available_def no_url_def field_size_limit_def)
  show ?thesis
  proof (cases "cached_bibtex cache title")
    case (Inl e)
    with assms(3) t u show ?thesis by (simp add: row_bibtex_def)
  next
    case (Inr c)
    show ?thesis
    proof (cases c)
      case (Some existing)
      with Inr assms(3) t u have b: "b = existing" by (simp add: row_bibtex_def)
      from Some Inr obtain entry where
        "map_of cache title = Some entry" "get_strip entry ''bibtex_data'' = Inr existing"
        by (auto simp: cached_bibtex_def split: option.splits sum.splits if_splits)
      with assms(2) get_strip_length [of entry "''bibtex_data''" existing] b
      show ?thesis by blast
    next
      case None
      with Inr assms(3) t u f reserved show ?thesis
        by (cases "url = []") (auto simp: row_bibtex_def split: if_splits)
    qed
  qed
qed

lemma written_readable:
  assumes "\<forall>url w. \<exists>t w'. fetch_bibtex web url w = (Inr (Some t), w') \<and>
             int (length t) \<le> field_size_limit"
    and "\<forall>title entry s. map_of cache title = Some entry \<longrightarrow>
           map_of (cols entry) ''bibtex_data'' = Some (PyStr s) \<longrightarrow>
           int (length s) \<le> field_size_limit"
    and "\<forall>k s. map_of (cols row) k = Some (PyStr s) \<longrightarrow> int (length s) \<le> field_size_limit"
    and "written web cache fieldnames row = Inr r"
  shows "readable r"
proof -
  from written_Inr [OF assms(4)] obtain b where
    b: "row_bibtex web cache row = Inr b"
    and r: "dict_to_list fieldnames (setitem row ''bibtex_data'' b) = Inr r"
    by blast
  from dict_to_list_setitem [OF r] have
    r_eq: "r = map (\<lambda>k. if k = ''bibtex_data'' then b else cell (map_of (cols row) k)) fieldnames" .
  from row_bibtex_length [OF assms(1,2) b] have "int (length b) \<le> field_size_limit" .
  moreover have "int (length (cell (map_of (cols row) k))) \<le> field_size_limit" for k
    using assms(3)
    by (auto simp: cell_def field_size_limit_def split: option.splits pyval.splits)
  ultimately show ?thesis
    by (auto simp: r_eq readable_def list_all_iff)
qed

lemma output_fieldnames_readable: "reader_error f = None \<Longrightarrow> readable (output_fieldnames f)"
  by (cases f)
    (auto simp: output_fieldnames_def reader_fieldnames_def reader_error_def readable_def
      field_size_limit_def Let_def split: if_splits)

lemma web_cite_real:
  "\<exists>t w'. fetch_bibtex web_cite url w = (Inr (Some t), w') \<and> real_bibtex t \<and>
          int (length t) \<le> field_size_limit"
proof -
  have "strip (''@misc{'' @ take 100 url @ ''}'') = ''@misc{'' @ take 100 url @ ''}''"
    by (simp add: strip_def isspace_def)
  then show ?thesis
    by (simp add: fetch_bibtex_def web_cite_def real_bibtex_def not_available_def no_url_def
        field_size_limit_def)
qed

text \<open>
  Claim C2. As the claim states it, for every input dataset, it fails when two records
  share a trimmed title: the first run fetches a citation for each, the second run
  finds under the title the last of them and gives it to all. On \<^const>\<open>same_title\<close>
  with a web that answers every URL with a citation of its own, the second record has
  \<^verbatim>\<open>@misc{u2}\<close> after the first run and \<^verbatim>\<open>@misc{u1}\<close> after the second.
\<close>

theorem second_run_differs:
  "fst (process_csv web_echo ''in.csv'' ''out.csv''
          (no_files\<lparr>files := [''in.csv'' \<mapsto> same_title]\<rparr>)) = Inr () \<and>
   files (snd (process_csv web_echo ''in.csv'' ''out.csv''
          (no_files\<lparr>files := [''in.csv'' \<mapsto> same_title]\<rparr>))) ''out.csv'' =
     Some [out_header,
           [''A'', ''u1'', ''@misc{u1}''], [''A '', ''u2'', ''@misc{u2}''],
           [''A'', ''u1'', ''@misc{u1}'']] \<and>
   fst (process_csv web_echo ''in.csv'' ''out.csv''
          (snd (process_csv web_echo ''in.csv'' ''out.csv''
             (no_files\<lparr>files := [''in.csv'' \<mapsto> same_title]\<rparr>)))) = Inr () \<and>
   files (snd (process_csv web_echo ''in.csv'' ''out.csv''
          (snd (process_csv web_echo ''in.csv'' ''out.csv''
             (no_files\<lparr>files := [''in.csv'' \<mapsto> same_title]\<rparr>))))) ''out.csv'' =
     Some [out_header,
           [''A'', ''u1'', ''@misc{u1}''], [''A '', ''u2'', ''@misc{u1}''],
           [''A'', ''u1'', ''@misc{u1}'']] \<and>
   ''@misc{u2}'' \<noteq> ''@misc{u1}''"
  by code_simp

text \<open>
  A record with a blank title is never found in the map (the loader drops blank keys):
  the second run requests its URL again.
\<close>

lemma blank_title_fetched_again:
  "requested (snd (process_csv web_echo ''in.csv'' ''out.csv''
          (no_files\<lparr>files := [''in.csv'' \<mapsto> [[''title'', ''bibtex_url''], ['' '', ''u1'']]]\<rparr>))) =
     [''u1''] \<and>
   requested (snd (process_csv web_echo ''in.csv'' ''out.csv''
          (snd (process_csv web_echo ''in.csv'' ''out.csv''
             (no_files\<lparr>files := [''in.csv'' \<mapsto> [[''title'', ''bibtex_url''], ['' '', ''u1'']]]\<rparr>))))) =
     [''u1'', ''u1'']"
  by code_simp

text \<open>
  A request that succeeds with a blank text leaves \<^verbatim>\<open>Not Available\<close> in the output,
  which the second run does not reuse: on the three papers, where the page of
  \<^verbatim>\<open>Paper C\<close> holds blanks only, the second run requests the URL of \<^verbatim>\<open>Paper C\<close>
  again.
\<close>

lemma blank_text_fetched_again:
  "requested (snd (process_csv web_example ''in.csv'' ''out.csv''
          (no_files\<lparr>files := [''in.csv'' \<mapsto> three_papers]\<rparr>))) =
     [''http://x/a'', ''http://x/c''] \<and>
   requested (snd (process_csv web_example ''in.csv'' ''out.csv''
          (snd (process_csv web_example ''in.csv'' ''out.csv''
             (no_files\<lparr>files := [''in.csv'' \<mapsto> three_papers]\<rparr>))))) =
     [''http://x/a'', ''http://x/c'', ''http://x/c'']"
  by code_simp

text \<open>
  Claim C2 as amended. Let the input and the output be different paths, the trimmed
  titles of the input records be non-blank and pairwise distinct, and every request
  return a text that, trimmed, is not blank, is not one of the two reserved values
  and has at most 131072 characters, the most that \<^verbatim>\<open>csv\<close> reads in one cell. When
  a first run returns normally, a second run on the world it left returns normally and
  leaves that world as it is: the output file is the same, no request is made and
  nothing is logged.
\<close>

theorem second_run_same:
  assumes "inputfile \<noteq> outputfile"
    and "files w inputfile = Some f"
    and "process_csv web inputfile outputfile w = (Inr (), w1)"
    and "\<forall>url w. \<exists>t w'. fetch_bibtex web url w = (Inr (Some t), w') \<and> real_bibtex t \<and>
           int (length t) \<le> field_size_limit"
    and "distinct (map (\<lambda>row. field row ''title'') (dict_reader f))"
    and "\<forall>row \<in> set (dict_reader f). field row ''title'' \<noteq> []"
  shows "process_csv web inputfile outputfile w1 = (Inr (), w1)"
proof -
  let ?fs = "output_fieldnames f"
  let ?rows = "dict_reader f"
  let ?title = "\<lambda>row. field row ''title''"
  note bd = bibtex_data_in_output_fieldnames [of f]
  from assms(4) have real:
    "\<forall>url w. \<exists>t w'. fetch_bibtex web url w = (Inr (Some t), w') \<and> real_bibtex t"
    by blast
  from assms(4) have short:
    "\<forall>url w. \<exists>t w'. fetch_bibtex web url w = (Inr (Some t), w') \<and>
       int (length t) \<le> field_size_limit"
    by blast
  from process_csv_returns [OF assms(3,2)] obtain cache0 outs where
    cache0: "load_existing_data w outputfile ''title'' = Inr cache0"
    and ok: "reader_error f = None"
    and outs: "list_all2 (\<lambda>row r. written web cache0 ?fs row = Inr r) ?rows outs"
    and w1: "w1 = (foldl (\<lambda>w row. row_effect web cache0 row w) w ?rows)
                    \<lparr>files := (files w)(outputfile \<mapsto> ?fs # outs)\<rparr>"
    by blast
  from w1 assms(1,2) have in1: "files w1 inputfile = Some f"
    and out1: "files w1 outputfile = Some (?fs # outs)"
    by simp_all
  text \<open>Every record of the first output reads back with the title of its input record.\<close>
  have readback: "get_strip (make_row ?fs r) ''title'' = Inr (?title row) \<and> r \<noteq> [] \<and>
              \<not> has_none (make_row ?fs r) ''title''"
    if "written web cache0 ?fs row = Inr r" for row r
  proof -
    from written_Inr [OF that] obtain b where
      b: "row_bibtex web cache0 row = Inr b"
      and r: "dict_to_list ?fs (setitem row ''bibtex_data'' b) = Inr r"
      by blast
    from b obtain title where t: "get_strip row ''title'' = Inr title"
      by (auto simp: row_bibtex_def split: sum.splits)
    from get_strip_Inr [OF t] have "?title row = title" by simp
    with reread(1,3) [OF r t bd] make_row_written_no_none [OF r] show ?thesis
      by simp
  qed
  have titles: "list_all2 (\<lambda>row r. ?title row = ?title (make_row ?fs r)) ?rows outs"
    using outs
  proof (rule list_all2_mono)
    fix row r
    assume "written web cache0 ?fs row = Inr r"
    from readback [OF this] get_strip_Inr [of "make_row ?fs r" "''title''" "?title row"]
    show "?title row = ?title (make_row ?fs r)" by simp
  qed
  then have "list_all2 (=) (map ?title ?rows) (map (\<lambda>r. ?title (make_row ?fs r)) outs)"
    by (simp add: list_all2_map1 list_all2_map2)
  then have same: "map ?title ?rows = map ?title (map (make_row ?fs) outs)"
    by (simp add: list.rel_eq comp_def)
  text \<open>No cell of the first output exceeds the limit of the reader.\<close>
  have cached: "\<forall>title entry s. map_of cache0 title = Some entry \<longrightarrow>
           map_of (cols entry) ''bibtex_data'' = Some (PyStr s) \<longrightarrow>
           int (length s) \<le> field_size_limit"
    using load_existing_data_cells [OF cache0] by blast
  have all_read: "\<forall>r \<in> set outs. r \<noteq> [] \<and> \<not> has_none (make_row ?fs r) ''title'' \<and> readable r"
  proof
    fix r
    assume "r \<in> set outs"
    then obtain i where i: "i < length outs" "r = outs ! i"
      by (auto simp: in_set_conv_nth)
    from outs have len: "length ?rows = length outs"
      by (rule list_all2_lengthD)
    define row where "row = ?rows ! i"
    from outs i(1) have "written web cache0 ?fs (?rows ! i) = Inr (outs ! i)"
      by (rule list_all2_nthD2)
    with i len have row: "row \<in> set ?rows" "written web cache0 ?fs row = Inr r"
      by (simp_all add: row_def)
    from dict_reader_cells [OF ok row(1)] have
      "\<forall>k s. map_of (cols row) k = Some (PyStr s) \<longrightarrow> int (length s) \<le> field_size_limit"
      by blast
    from written_readable [OF short cached this row(2)] readback [OF row(2)]
    show "r \<noteq> [] \<and> \<not> has_none (make_row ?fs r) ''title'' \<and> readable r"
      by simp
  qed
  from output_fieldnames_readable [OF ok] all_read have
    reader: "dict_reader (?fs # outs) = map (make_row ?fs) outs"
    by (intro dict_reader_written) simp_all
  from output_fieldnames_readable [OF ok] all_read have
    ok1: "reader_error (?fs # outs) = None"
    by (simp add: reader_error_def list_all_iff)
  from all_read have "\<forall>entry \<in> set (map (make_row ?fs) outs). \<not> has_none entry ''title''"
    by simp
  from load_rows_map_of [OF this, of "[]"] obtain cache1 where
    load1: "load_rows ''title'' (map (make_row ?fs) outs) [] = Inr cache1"
    and look: "\<And>k. map_of cache1 k =
          (case find (\<lambda>entry. ?title entry = k \<and> k \<noteq> []) (rev (map (make_row ?fs) outs)) of
             Some entry \<Rightarrow> Some entry
           | None \<Rightarrow> map_of [] k)"
    by blast
  from out1 reader load1 ok1 have
    cache1: "load_existing_data w1 outputfile ''title'' = Inr cache1"
    by (simp add: load_existing_data_def)
  from assms(5) same have d: "distinct (map ?title (map (make_row ?fs) outs))"
    by simp
  text \<open>The second run finds, under the title of each record, the record written for it.\<close>
  have found: "map_of cache1 (?title row) = Some (make_row ?fs r)"
    if "row \<in> set ?rows" "r \<in> set outs" "written web cache0 ?fs row = Inr r" for row r
  proof -
    from readback [OF that(3)] get_strip_Inr [of "make_row ?fs r" "''title''" "?title row"]
    have eq: "?title (make_row ?fs r) = ?title row" by simp
    from assms(6) that(1) have ne: "?title row \<noteq> []" by simp
    from that(2) have "make_row ?fs r \<in> set (map (make_row ?fs) outs)" by simp
    from find_distinct [OF d this] eq have
      "find (\<lambda>entry. ?title entry = ?title row) (rev (map (make_row ?fs) outs)) =
         Some (make_row ?fs r)"
      by simp
    moreover from ne have
      "(\<lambda>entry. ?title entry = ?title row \<and> ?title row \<noteq> []) =
       (\<lambda>entry. ?title entry = ?title row)"
      by simp
    ultimately show ?thesis
      using look [of "?title row"] by simp
  qed
  have again: "list_all2 (\<lambda>row r. written web cache1 ?fs row = Inr r \<and> \<not> fetches cache1 row)
                 ?rows outs"
    using outs
  proof (rule list.rel_mono_strong)
    fix row r
    assume "row \<in> set ?rows" "r \<in> set outs" "written web cache0 ?fs row = Inr r"
    from second_pass [OF real this(3) bd found [OF this]]
    show "written web cache1 ?fs row = Inr r \<and> \<not> fetches cache1 row" by simp
  qed
  then have w2: "list_all2 (\<lambda>row r. written web cache1 ?fs row = Inr r) ?rows outs"
    by (rule list_all2_mono) simp
  from again have "\<forall>row \<in> set ?rows. \<not> fetches cache1 row"
    by (auto simp: list_all2_conv_all_nth in_set_conv_nth)
  then have quiet: "foldl (\<lambda>w row. row_effect web cache1 row w) w1 ?rows = w1"
    by (rule no_effects)
  from out1 have "w1\<lparr>files := (files w1)(outputfile \<mapsto> ?fs # outs)\<rparr> = w1"
    by (simp add: fun_upd_idem)
  with process_csv_written [OF cache1 in1 ok w2] quiet show ?thesis
    by simp
qed

text \<open>
  The three papers, one of them without a URL, run twice on a web that answers every
  URL with a citation of its own.
\<close>

theorem second_run_same_witness:
  "process_csv web_cite ''in.csv'' ''out.csv''
     (snd (process_csv web_cite ''in.csv'' ''out.csv''
             (no_files\<lparr>files := [''in.csv'' \<mapsto> three_papers]\<rparr>))) =
     (Inr (), snd (process_csv web_cite ''in.csv'' ''out.csv''
                     (no_files\<lparr>files := [''in.csv'' \<mapsto> three_papers]\<rparr>))) \<and>
   files (snd (process_csv web_cite ''in.csv'' ''out.csv''
                 (no_files\<lparr>files := [''in.csv'' \<mapsto> three_papers]\<rparr>))) ''out.csv'' =
     Some [out_header,
           [''Paper A'', ''http://x/a'', ''@misc{http://x/a}''],
           [''Paper B'', '''', ''No URL''],
           [''Paper C'', ''http://x/c'', ''@misc{http://x/c}'']] \<and>
   requested (snd (process_csv web_cite ''in.csv'' ''out.csv''
                 (no_files\<lparr>files := [''in.csv'' \<mapsto> three_papers]\<rparr>))) =
     [''http://x/a'', ''http://x/c'']"
proof -
  let ?w = "no_files\<lparr>files := [''in.csv'' \<mapsto> three_papers]\<rparr>"
  let ?r = "process_csv web_cite ''in.csv'' ''out.csv'' ?w"
  have "fst ?r = Inr ()"
    by code_simp
  then have first: "?r = (Inr (), snd ?r)"
    by (simp add: prod_eq_iff)
  have paths: "''in.csv'' \<noteq> ''out.csv''"
    by simp
  have inp: "files ?w ''in.csv'' = Some three_papers"
    by (simp add: no_files_def)
  have web: "\<forall>url w. \<exists>t w'. fetch_bibtex web_cite url w = (Inr (Some t), w') \<and> real_bibtex t \<and>
               int (length t) \<le> field_size_limit"
    using web_cite_real by blast
  have d: "distinct (map (\<lambda>row. field row ''title'') (dict_reader three_papers))"
    by code_simp
  have "list_all (\<lambda>row. field row ''title'' \<noteq> []) (dict_reader three_papers)"
    by code_simp
  then have ne: "\<forall>row \<in> set (dict_reader three_papers). field row ''title'' \<noteq> []"
    by (simp add: list_all_iff)
  have e: "files (snd ?r) ''out.csv'' =
     Some [out_header,
           [''Paper A'', ''http://x/a'', ''@misc{http://x/a}''],
           [''Paper B'', '''', ''No URL''],
           [''Paper C'', ''http://x/c'', ''@misc{http://x/c}'']]"
    "requested (snd ?r) = [''http://x/a'', ''http://x/c'']"
    by code_simp+
  from second_run_same [OF paths inp first web d ne] e show ?thesis
    by simp
qed

end
